theory Spec2Isabelle
  imports Main
begin

section \<open>JavaScript values used by the components\<close>

text \<open>
  Text is modelled as \<^typ>\<open>string\<close>. A string is falsy exactly when it is empty.
  \<open>String.prototype.trim\<close> removes white space and line terminators from both ends;
  among the code units a \<^typ>\<open>char\<close> can hold these are TAB, LF, VT, FF, CR, SPACE and
  NBSP.
\<close>

definition isWhiteSpace :: "char \<Rightarrow> bool" where
  "isWhiteSpace c = ((of_char c :: nat) \<in> {9, 10, 11, 12, 13, 32, 160})"

definition trim :: "string \<Rightarrow> string" where
  "trim s = rev (dropWhile isWhiteSpace (rev (dropWhile isWhiteSpace s)))"

text \<open>
  A number of the components is \<open>NaN\<close>, an infinity, or an integer: \<open>parseInt\<close>
  never returns a fraction. An integer that is stored is a double, that is, the result
  of rounding. \<open>NaN\<close> and \<open>0\<close> are the falsy numbers.
\<close>

datatype jsnum = NaN | Num int | PosInfinity | NegInfinity

fun truthy :: "jsnum \<Rightarrow> bool" where
  "truthy NaN = False"
| "truthy (Num n) = (n \<noteq> 0)"
| "truthy PosInfinity = True"
| "truthy NegInfinity = True"

text \<open>
  The double nearest to a natural number, ties going to the even significand of 53 bits;
  \<open>None\<close> stands for the overflow to infinity.
\<close>

fun bitlen :: "nat \<Rightarrow> nat" where
  "bitlen n = (if n = 0 then 0 else Suc (bitlen (n div 2)))"

declare bitlen.simps [simp del]

definition roundDouble :: "nat \<Rightarrow> nat option" where
  "roundDouble n =
     (if bitlen n \<le> 53 then Some n
      else let e = bitlen n - 53;
               m = n div 2 ^ e;
               r = n mod 2 ^ e;
               h = 2 ^ (e - 1);
               m' = (if h < r \<or> (r = h \<and> odd m) then m + 1 else m)
           in if 2 ^ 1024 \<le> m' * 2 ^ e then None else Some (m' * 2 ^ e))"

text \<open>Whether an integer is a double.\<close>

definition isDouble :: "int \<Rightarrow> bool" where
  "isDouble k = (roundDouble (nat \<bar>k\<bar>) = Some (nat \<bar>k\<bar>))"

text \<open>The operator \<open>a || b\<close> on numbers.\<close>

definition js_or :: "jsnum \<Rightarrow> jsnum \<Rightarrow> jsnum" where
  "js_or a b = (if truthy a then a else b)"

text \<open>The operator \<open>a || b\<close> where \<open>a\<close> is a string or \<open>undefined\<close>.\<close>

definition str_or :: "string option \<Rightarrow> string \<Rightarrow> string" where
  "str_or a b = (case a of None \<Rightarrow> b | Some x \<Rightarrow> if x = [] then b else x)"

datatype json = JNull | JNum int | JStr string

subsection \<open>\<open>parseInt\<close> and \<open>Number.prototype.toString\<close>\<close>

text \<open>
  \<open>parseInt(string)\<close> with no radix: skip leading white space, read an optional sign,
  switch to radix 16 after a \<open>0x\<close> or \<open>0X\<close> prefix, and read the longest run of digits
  of the radix; with no digit the result is \<open>NaN\<close>. Whatever follows the digits is
  ignored.
\<close>

definition digitValue :: "char \<Rightarrow> nat option" where
  "digitValue c =
     (let n = (of_char c :: nat) in
      if 48 \<le> n \<and> n \<le> 57 then Some (n - 48)
      else if 97 \<le> n \<and> n \<le> 122 then Some (n - 87)
      else if 65 \<le> n \<and> n \<le> 90 then Some (n - 55)
      else None)"

definition isRadixDigit :: "nat \<Rightarrow> char \<Rightarrow> bool" where
  "isRadixDigit R c = (case digitValue c of None \<Rightarrow> False | Some d \<Rightarrow> d < R)"

definition digitOf :: "char \<Rightarrow> nat" where
  "digitOf c = (case digitValue c of None \<Rightarrow> 0 | Some d \<Rightarrow> d)"

definition mathInt :: "nat \<Rightarrow> string \<Rightarrow> nat" where
  "mathInt R z = foldl (\<lambda>a c. a * R + digitOf c) 0 z"

definition stripSign :: "string \<Rightarrow> int \<times> string" where
  "stripSign s =
     (case s of
        [] \<Rightarrow> (1, [])
      | c # t \<Rightarrow> if c = CHR ''-'' then (- 1, t) else if c = CHR ''+'' then (1, t) else (1, s))"

definition stripPrefix :: "string \<Rightarrow> nat \<times> string" where
  "stripPrefix s =
     (case s of
        c # x # t \<Rightarrow> if c = CHR ''0'' \<and> (x = CHR ''x'' \<or> x = CHR ''X'') then (16, t) else (10, s)
      | _ \<Rightarrow> (10, s))"

text \<open>
  The digits are read as an exact integer, which is then rounded to the nearest double.
  (The licence to replace decimal digits after the twentieth by zeros is not used.)
\<close>

definition parseInt :: "string \<Rightarrow> jsnum" where
  "parseInt s =
     (let (sign, s1) = stripSign (dropWhile isWhiteSpace s);
          (R, s2) = stripPrefix s1;
          z = takeWhile (isRadixDigit R) s2
      in if z = [] then NaN
         else case roundDouble (mathInt R z) of
                None \<Rightarrow> (if sign < 0 then NegInfinity else PosInfinity)
              | Some v \<Rightarrow> Num (sign * int v))"

text \<open>Decimal digits of a natural number.\<close>

fun digits10 :: "nat \<Rightarrow> string" where
  "digits10 n =
     (if n < 10 then [char_of (48 + n)]
      else digits10 (n div 10) @ [char_of (48 + n mod 10)])"

declare digits10.simps [simp del]

text \<open>
  \<open>Number.prototype.toString\<close> prints the decimal number with the fewest significant
  digits that still rounds to the number; of two such numbers the nearer one, and the one
  with the even last digit when they are equally near. \<open>shortest_from x j\<close> tries the
  multiples of \<open>10 ^ j\<close> next to \<open>x\<close>, from the coarsest down to \<open>x\<close> itself.
\<close>

fun shortest_from :: "nat \<Rightarrow> nat \<Rightarrow> nat" where
  "shortest_from x 0 = x"
| "shortest_from x (Suc j) =
     (let p = 10 ^ Suc j;
          lo = (x div p) * p;
          hi = lo + p;
          okl = (roundDouble lo = Some x);
          okh = (roundDouble hi = Some x)
      in if okl \<and> okh
         then (if x - lo < hi - x then lo
               else if hi - x < x - lo then hi
               else if even (x div p) then lo else hi)
         else if okl then lo
         else if okh then hi
         else shortest_from x j)"

definition shortest :: "nat \<Rightarrow> nat" where
  "shortest x = shortest_from x (length (digits10 x) - 1)"

text \<open>
  A number below \<open>10^21\<close> is printed in plain decimal, a number from \<open>10^21\<close> on with an
  exponent: the first significant digit, a point and the other significant digits if
  there are any, and \<open>e+\<close> with the exponent.
\<close>

definition exponential :: "nat \<Rightarrow> string" where
  "exponential v =
     (let ds = digits10 v;
          sig = rev (dropWhile (\<lambda>c. c = CHR ''0'') (rev ds))
      in case sig of
           [] \<Rightarrow> ''0''
         | d # rest \<Rightarrow>
             (d # (if rest = [] then [] else CHR ''.'' # rest)) @ ''e+''
               @ digits10 (length ds - 1))"

definition plain_limit :: nat where
  "plain_limit = 10 ^ 21"

definition printNat :: "nat \<Rightarrow> string" where
  "printNat x = (let v = shortest x in if v < plain_limit then digits10 v else exponential v)"

fun toString :: "jsnum \<Rightarrow> string" where
  "toString NaN = ''NaN''"
| "toString PosInfinity = ''Infinity''"
| "toString NegInfinity = ''-Infinity''"
| "toString (Num n) = (if n < 0 then CHR ''-'' # printNat (nat (- n)) else printNat (nat n))"

text \<open>\<open>JSON.stringify\<close> of a number: \<open>NaN\<close> and the infinities are written as \<open>null\<close>.\<close>

fun json_of_num :: "jsnum \<Rightarrow> json" where
  "json_of_num (Num n) = JNum n"
| "json_of_num x = JNull"

subsection \<open>HTTP requests and the outcome of \<open>fetch\<close>\<close>

record js_file =
  fname :: string
  ftype :: string
  fsize :: nat

datatype http_method = GET | POST

datatype req_body = NoBody | JsonBody "(string \<times> json) list" | FormData "(string \<times> js_file) list"

record request =
  rmethod :: http_method
  url :: string
  headers :: "(string \<times> string) list"
  rbody :: req_body

record quiz_question =
  question :: string
  options :: "string list"
  answer :: string

text \<open>
  The parsed body \<open>data\<close> of a reply, with the fields the handlers read. \<open>data.error\<close>
  may be absent; the payload fields have the types of the state they are stored in.
\<close>

record reply =
  error_field :: "string option"
  summary_field :: string
  explanation_field :: string
  quiz_field :: "quiz_question list"

text \<open>
  \<open>await fetch(...)\<close> followed by \<open>await response.json()\<close> inside \<open>try\<close>: either
  \<open>fetch\<close> rejects, or a response arrives with its \<open>ok\<close> flag and a body. The body is
  \<open>None\<close> when \<open>response.json()\<close> rejects; both rejections reach the \<open>catch\<close> block.
  \<open>NullBody\<close> is a response whose body is the JSON value \<open>null\<close>: it parses, but
  reading a member of it throws, which reaches the \<open>catch\<close> block as well.
\<close>

datatype fetch_outcome = NetworkFailure | Response bool "reply option" | NullBody bool

fun is_failure :: "fetch_outcome \<Rightarrow> bool" where
  "is_failure NetworkFailure = True"
| "is_failure (Response ok None) = True"
| "is_failure (Response ok (Some d)) = (\<not> ok)"
| "is_failure (NullBody ok) = (\<not> ok)"

section \<open>ExplainTab\<close>

record explain_tab =
  conceptQuery :: string
  explanation :: string
  isLoading_e :: bool

definition explain_init :: explain_tab where
  "explain_init = \<lparr>conceptQuery = [], explanation = [], isLoading_e = False\<rparr>"

definition explain_request :: "string \<Rightarrow> request" where
  "explain_request q =
     \<lparr>rmethod = POST, url = ''http://localhost:5000/explain'',
      headers = [(''Content-Type'', ''application/json'')],
      rbody = JsonBody [(''query'', JStr q)]\<rparr>"

text \<open>
  \<open>handleExplain\<close> up to the \<open>fetch\<close>: the guard, the two state updates and the
  request that is sent, if any.
\<close>

definition handleExplain_begin :: "explain_tab \<Rightarrow> explain_tab \<times> request option" where
  "handleExplain_begin s =
     (if trim (conceptQuery s) = [] then (s, None)
      else (s\<lparr>isLoading_e := True, explanation := []\<rparr>,
            Some (explain_request (conceptQuery s))))"

text \<open>\<open>handleExplain\<close> after the awaits, with \<open>finally\<close>.\<close>

definition handleExplain_resolve :: "explain_tab \<Rightarrow> fetch_outcome \<Rightarrow> explain_tab" where
  "handleExplain_resolve s r =
     (case r of
        Response ok (Some d) \<Rightarrow>
          (if ok then s\<lparr>explanation := explanation_field d\<rparr>
           else s\<lparr>explanation := ''Error generating explanation. Please try again.''\<rparr>)
      | NullBody ok \<Rightarrow>
          (if ok
           then s\<lparr>explanation := ''Network error. Please check if the server is running.''\<rparr>
           else s\<lparr>explanation := ''Error generating explanation. Please try again.''\<rparr>)
      | _ \<Rightarrow> s\<lparr>explanation := ''Network error. Please check if the server is running.''\<rparr>)
     \<lparr>isLoading_e := False\<rparr>"

definition handleExplain :: "explain_tab \<Rightarrow> fetch_outcome \<Rightarrow> explain_tab \<times> request option" where
  "handleExplain s r =
     (case handleExplain_begin s of
        (s', None) \<Rightarrow> (s', None)
      | (s', Some q) \<Rightarrow> (handleExplain_resolve s' r, Some q))"

definition setConceptQuery :: "explain_tab \<Rightarrow> string \<Rightarrow> explain_tab" where
  "setConceptQuery s v = s\<lparr>conceptQuery := v\<rparr>"

text \<open>\<open>handleKeyPress\<close>: Enter without Shift submits.\<close>

definition handleKeyPress :: "explain_tab \<Rightarrow> string \<Rightarrow> bool \<Rightarrow> fetch_outcome
    \<Rightarrow> explain_tab \<times> request option" where
  "handleKeyPress s key shiftKey r =
     (if key = ''Enter'' \<and> \<not> shiftKey then handleExplain s r else (s, None))"

text \<open>The button is disabled while loading or when the trimmed question is empty.\<close>

definition explain_disabled :: "explain_tab \<Rightarrow> bool" where
  "explain_disabled s = (isLoading_e s \<or> trim (conceptQuery s) = [])"

definition explain_click :: "explain_tab \<Rightarrow> fetch_outcome \<Rightarrow> explain_tab \<times> request option" where
  "explain_click s r = (if explain_disabled s then (s, None) else handleExplain s r)"

datatype explain_view = ExplainLoading | ExplainText string | ExplainPlaceholder

definition explain_render :: "explain_tab \<Rightarrow> explain_view" where
  "explain_render s =
     (if isLoading_e s then ExplainLoading
      else if explanation s \<noteq> [] then ExplainText (explanation s)
      else ExplainPlaceholder)"

text \<open>The \<open>query\<close> member of a request body.\<close>

fun query_of :: "request \<Rightarrow> string option" where
  "query_of rq =
     (case rbody rq of
        JsonBody kvs \<Rightarrow> (case map_of kvs ''query'' of Some (JStr q) \<Rightarrow> Some q | _ \<Rightarrow> None)
      | _ \<Rightarrow> None)"

section \<open>SummaryTab\<close>

record summary_tab =
  summary :: string
  isLoading_s :: bool
  hasGenerated :: bool

definition summary_init :: summary_tab where
  "summary_init = \<lparr>summary = [], isLoading_s = False, hasGenerated = False\<rparr>"

text \<open>\<open>fetch(url)\<close> with no second argument: a GET with no headers and no body.\<close>

definition summary_request :: request where
  "summary_request =
     \<lparr>rmethod = GET, url = ''http://localhost:5000/summary'', headers = [], rbody = NoBody\<rparr>"

definition handleGenerateSummary_begin :: "summary_tab \<Rightarrow> summary_tab \<times> request" where
  "handleGenerateSummary_begin s = (s\<lparr>isLoading_s := True, summary := []\<rparr>, summary_request)"

definition handleGenerateSummary_resolve :: "summary_tab \<Rightarrow> fetch_outcome \<Rightarrow> summary_tab" where
  "handleGenerateSummary_resolve s r =
     (case r of
        Response ok (Some d) \<Rightarrow>
          (if ok then s\<lparr>summary := summary_field d, hasGenerated := True\<rparr>
           else s\<lparr>summary := ''Error generating summary. Please try again.''\<rparr>)
      | NullBody ok \<Rightarrow>
          (if ok
           then s\<lparr>summary := ''Network error. Please check if the server is running.''\<rparr>
           else s\<lparr>summary := ''Error generating summary. Please try again.''\<rparr>)
      | _ \<Rightarrow> s\<lparr>summary := ''Network error. Please check if the server is running.''\<rparr>)
     \<lparr>isLoading_s := False\<rparr>"

definition handleGenerateSummary :: "summary_tab \<Rightarrow> fetch_outcome \<Rightarrow> summary_tab \<times> request" where
  "handleGenerateSummary s r =
     (case handleGenerateSummary_begin s of (s', q) \<Rightarrow> (handleGenerateSummary_resolve s' r, q))"

definition summary_click :: "summary_tab \<Rightarrow> fetch_outcome \<Rightarrow> summary_tab \<times> request option" where
  "summary_click s r =
     (if isLoading_s s then (s, None)
      else case handleGenerateSummary s r of (s', q) \<Rightarrow> (s', Some q))"

datatype summary_view = SummaryLoading | SummaryText string | SummaryPlaceholder

definition summary_render :: "summary_tab \<Rightarrow> summary_view" where
  "summary_render s =
     (if isLoading_s s then SummaryLoading
      else if summary s \<noteq> [] then SummaryText (summary s)
      else SummaryPlaceholder)"

text \<open>The query string of a URL: what follows the first \<open>?\<close>, if there is one.\<close>

definition query_string :: "string \<Rightarrow> string option" where
  "query_string u =
     (case dropWhile (\<lambda>c. c \<noteq> CHR ''?'') u of [] \<Rightarrow> None | c # t \<Rightarrow> Some t)"

section \<open>QuizTab\<close>

record quiz_tab =
  quizDifficulty :: string
  numQuestions :: jsnum
  quiz :: "quiz_question list"
  isLoading_q :: bool
  visibleAnswers :: "nat set"

definition quiz_init :: quiz_tab where
  "quiz_init =
     \<lparr>quizDifficulty = ''Medium'', numQuestions = Num 5, quiz = [], isLoading_q = False,
      visibleAnswers = {}\<rparr>"

text \<open>
  The \<open>select\<close> element has three \<open>option\<close> children; a change event carries the
  \<open>value\<close> of one of them.
\<close>

datatype difficulty_option = OptEasy | OptMedium | OptHard

fun option_value :: "difficulty_option \<Rightarrow> string" where
  "option_value OptEasy = ''Easy''"
| "option_value OptMedium = ''Medium''"
| "option_value OptHard = ''Hard''"

definition setQuizDifficulty :: "quiz_tab \<Rightarrow> string \<Rightarrow> quiz_tab" where
  "setQuizDifficulty s v = s\<lparr>quizDifficulty := v\<rparr>"

definition difficulty_onChange :: "quiz_tab \<Rightarrow> difficulty_option \<Rightarrow> quiz_tab" where
  "difficulty_onChange s opt = setQuizDifficulty s (option_value opt)"

text \<open>The number input: \<open>setNumQuestions(parseInt(e.target.value) || 5)\<close>.\<close>

definition numQuestions_onChange :: "quiz_tab \<Rightarrow> string \<Rightarrow> quiz_tab" where
  "numQuestions_onChange s v = s\<lparr>numQuestions := js_or (parseInt v) (Num 5)\<rparr>"

definition quiz_request :: "string \<Rightarrow> jsnum \<Rightarrow> request" where
  "quiz_request d n =
     \<lparr>rmethod = POST, url = ''http://localhost:5000/quiz'',
      headers = [(''Content-Type'', ''application/json'')],
      rbody = JsonBody [(''difficulty'', JStr d),
                        (''num_questions'', json_of_num (parseInt (toString n)))]\<rparr>"

text \<open>Lines written with \<open>console.error\<close>: the label and, where it is logged, \<open>data.error\<close>.\<close>

datatype log_entry = ConsoleError string "string option"

definition handleGenerateQuiz_begin :: "quiz_tab \<Rightarrow> quiz_tab \<times> request" where
  "handleGenerateQuiz_begin s =
     (s\<lparr>isLoading_q := True, quiz := [], visibleAnswers := {}\<rparr>,
      quiz_request (quizDifficulty s) (numQuestions s))"

definition handleGenerateQuiz_resolve :: "quiz_tab \<Rightarrow> fetch_outcome \<Rightarrow> quiz_tab \<times> log_entry list" where
  "handleGenerateQuiz_resolve s r =
     (case r of
        Response ok (Some d) \<Rightarrow>
          (if ok then (s\<lparr>quiz := quiz_field d, isLoading_q := False\<rparr>, [])
           else (s\<lparr>isLoading_q := False\<rparr>,
                 [ConsoleError ''Error generating quiz:'' (error_field d)]))
      | _ \<Rightarrow> (s\<lparr>isLoading_q := False\<rparr>, [ConsoleError ''Network error:'' None]))"

definition handleGenerateQuiz :: "quiz_tab \<Rightarrow> fetch_outcome
    \<Rightarrow> quiz_tab \<times> request \<times> log_entry list" where
  "handleGenerateQuiz s r =
     (case handleGenerateQuiz_begin s of
        (s1, q) \<Rightarrow> (case handleGenerateQuiz_resolve s1 r of (s2, lg) \<Rightarrow> (s2, q, lg)))"

definition quiz_click :: "quiz_tab \<Rightarrow> fetch_outcome
    \<Rightarrow> quiz_tab \<times> request option \<times> log_entry list" where
  "quiz_click s r =
     (if isLoading_q s then (s, None, [])
      else case handleGenerateQuiz s r of (s', q, lg) \<Rightarrow> (s', Some q, lg))"

definition toggleAnswer :: "quiz_tab \<Rightarrow> nat \<Rightarrow> quiz_tab" where
  "toggleAnswer s questionIndex =
     (if questionIndex \<in> visibleAnswers s
      then s\<lparr>visibleAnswers := visibleAnswers s - {questionIndex}\<rparr>
      else s\<lparr>visibleAnswers := insert questionIndex (visibleAnswers s)\<rparr>)"

datatype quiz_view = QuizLoading | QuizResults "quiz_question list" "nat set" | QuizPlaceholder

definition quiz_render :: "quiz_tab \<Rightarrow> quiz_view" where
  "quiz_render s =
     (if isLoading_q s then QuizLoading
      else if length (quiz s) > 0 then QuizResults (quiz s) (visibleAnswers s)
      else QuizPlaceholder)"

text \<open>
  The options of question \<open>questionIndex\<close> that are drawn in green: those equal to the
  answer, once the answer has been made visible.
\<close>

definition highlighted :: "quiz_tab \<Rightarrow> nat \<Rightarrow> quiz_question \<Rightarrow> string list" where
  "highlighted s questionIndex q =
     filter (\<lambda>opt. questionIndex \<in> visibleAnswers s \<and> opt = answer q) (options q)"

text \<open>The members of a quiz request body.\<close>

definition difficulty_of :: "request \<Rightarrow> json option" where
  "difficulty_of rq = (case rbody rq of JsonBody kvs \<Rightarrow> map_of kvs ''difficulty'' | _ \<Rightarrow> None)"

definition num_questions_of :: "request \<Rightarrow> json option" where
  "num_questions_of rq =
     (case rbody rq of JsonBody kvs \<Rightarrow> map_of kvs ''num_questions'' | _ \<Rightarrow> None)"

section \<open>UploadView\<close>

record upload_view =
  selectedFile :: "js_file option"
  isUploading :: bool
  dragOver :: bool
  statusMessage :: string
  isError :: bool

definition upload_init :: upload_view where
  "upload_init =
     \<lparr>selectedFile = None, isUploading = False, dragOver = False, statusMessage = [],
      isError = False\<rparr>"

definition handleFileSelect :: "upload_view \<Rightarrow> js_file \<Rightarrow> upload_view" where
  "handleFileSelect s f =
     (if ftype f = ''application/pdf''
      then s\<lparr>selectedFile := Some f, statusMessage := [], isError := False\<rparr>
      else s\<lparr>statusMessage := ''Please select a PDF file only.'', isError := True\<rparr>)"

text \<open>\<open>e.dataTransfer.files\<close> as a list; only its first element is looked at.\<close>

definition handleDrop :: "upload_view \<Rightarrow> js_file list \<Rightarrow> upload_view" where
  "handleDrop s files =
     (let s1 = s\<lparr>dragOver := False\<rparr>
      in case files of [] \<Rightarrow> s1 | f # _ \<Rightarrow> handleFileSelect s1 f)"

definition handleDragOver :: "upload_view \<Rightarrow> upload_view" where
  "handleDragOver s = s\<lparr>dragOver := True\<rparr>"

definition handleDragLeave :: "upload_view \<Rightarrow> upload_view" where
  "handleDragLeave s = s\<lparr>dragOver := False\<rparr>"

text \<open>\<open>e.target.files\<close> may be \<open>null\<close>.\<close>

definition handleFileInputChange :: "upload_view \<Rightarrow> js_file list option \<Rightarrow> upload_view" where
  "handleFileInputChange s files =
     (case files of None \<Rightarrow> s | Some [] \<Rightarrow> s | Some (f # _) \<Rightarrow> handleFileSelect s f)"

definition upload_request :: "js_file \<Rightarrow> request" where
  "upload_request f =
     \<lparr>rmethod = POST, url = ''http://localhost:5000/upload'', headers = [],
      rbody = FormData [(''file'', f)]\<rparr>"

text \<open>A callback handed to \<open>setTimeout\<close>, with its delay in milliseconds.\<close>

datatype timeout = OnUploadSuccess nat

definition handleUpload_begin :: "upload_view \<Rightarrow> upload_view \<times> request option" where
  "handleUpload_begin s =
     (case selectedFile s of
        None \<Rightarrow> (s, None)
      | Some f \<Rightarrow>
          (s\<lparr>isUploading := True, statusMessage := [], isError := False\<rparr>,
           Some (upload_request f)))"

definition handleUpload_resolve :: "upload_view \<Rightarrow> fetch_outcome \<Rightarrow> upload_view \<times> timeout list" where
  "handleUpload_resolve s r =
     (case r of
        Response ok (Some d) \<Rightarrow>
          (if ok
           then (s\<lparr>statusMessage := ''PDF uploaded and processed successfully!'',
                   isUploading := False\<rparr>, [OnUploadSuccess 1000])
           else (s\<lparr>statusMessage := str_or (error_field d) ''Upload failed. Please try again.'',
                   isError := True, isUploading := False\<rparr>, []))
      | NullBody ok \<Rightarrow>
          (if ok
           then (s\<lparr>statusMessage := ''PDF uploaded and processed successfully!'',
                   isUploading := False\<rparr>, [OnUploadSuccess 1000])
           else (s\<lparr>statusMessage := ''Network error. Please check if the server is running.'',
                   isError := True, isUploading := False\<rparr>, []))
      | _ \<Rightarrow>
          (s\<lparr>statusMessage := ''Network error. Please check if the server is running.'',
             isError := True, isUploading := False\<rparr>, []))"

definition handleUpload :: "upload_view \<Rightarrow> fetch_outcome
    \<Rightarrow> upload_view \<times> request option \<times> timeout list" where
  "handleUpload s r =
     (case handleUpload_begin s of
        (s1, None) \<Rightarrow> (s1, None, [])
      | (s1, Some q) \<Rightarrow> (case handleUpload_resolve s1 r of (s2, ts) \<Rightarrow> (s2, Some q, ts)))"

definition upload_disabled :: "upload_view \<Rightarrow> bool" where
  "upload_disabled s = (selectedFile s = None \<or> isUploading s)"

text \<open>The status box is drawn when the message is not empty, red when \<open>isError\<close>.\<close>

datatype status_view = NoStatus | ErrorStatus string | SuccessStatus string

definition status_render :: "upload_view \<Rightarrow> status_view" where
  "status_render s =
     (if statusMessage s = [] then NoStatus
      else if isError s then ErrorStatus (statusMessage s)
      else SuccessStatus (statusMessage s))"

text \<open>The files of a multipart body.\<close>

definition files_of :: "request \<Rightarrow> js_file list" where
  "files_of rq = (case rbody rq of FormData kvs \<Rightarrow> map snd kvs | _ \<Rightarrow> [])"

section \<open>DashboardView and Index\<close>

text \<open>
  \<open>DashboardView\<close> keeps the id of the active tab and mounts the tab component whose
  id it is. A tab component that is mounted starts from its initial state.
\<close>

datatype tab_content =
    SummaryMounted summary_tab
  | ExplainMounted explain_tab
  | QuizMounted quiz_tab
  | NoTab

record dashboard_view =
  activeTab :: string
  content :: tab_content

definition mount :: "string \<Rightarrow> tab_content" where
  "mount a =
     (if a = ''summary'' then SummaryMounted summary_init
      else if a = ''explain'' then ExplainMounted explain_init
      else if a = ''quiz'' then QuizMounted quiz_init
      else NoTab)"

definition dashboard_init :: dashboard_view where
  "dashboard_init = \<lparr>activeTab = ''summary'', content = mount ''summary''\<rparr>"

text \<open>The three tab buttons, built from the \<open>tabs\<close> array.\<close>

datatype tab_button = TabSummary | TabExplain | TabQuiz

fun tab_id :: "tab_button \<Rightarrow> string" where
  "tab_id TabSummary = ''summary''"
| "tab_id TabExplain = ''explain''"
| "tab_id TabQuiz = ''quiz''"

text \<open>Setting the active tab to the id it already has changes nothing.\<close>

definition setActiveTab :: "dashboard_view \<Rightarrow> string \<Rightarrow> dashboard_view" where
  "setActiveTab s a = (if a = activeTab s then s else \<lparr>activeTab = a, content = mount a\<rparr>)"

text \<open>What the user can do inside the mounted tab.\<close>

datatype tab_event =
    ClickSummary fetch_outcome
  | TypeQuestion string
  | ClickExplain fetch_outcome
  | PressKey string bool fetch_outcome
  | SelectDifficulty difficulty_option
  | TypeCount string
  | ClickQuiz fetch_outcome
  | ClickToggle nat

fun opt_list :: "'a option \<Rightarrow> 'a list" where
  "opt_list None = []"
| "opt_list (Some x) = [x]"

fun tab_step :: "tab_content \<Rightarrow> tab_event \<Rightarrow> tab_content \<times> request list \<times> log_entry list" where
  "tab_step (SummaryMounted t) (ClickSummary r) =
     (case summary_click t r of (t', q) \<Rightarrow> (SummaryMounted t', opt_list q, []))"
| "tab_step (ExplainMounted t) (TypeQuestion v) = (ExplainMounted (setConceptQuery t v), [], [])"
| "tab_step (ExplainMounted t) (ClickExplain r) =
     (case explain_click t r of (t', q) \<Rightarrow> (ExplainMounted t', opt_list q, []))"
| "tab_step (ExplainMounted t) (PressKey k sh r) =
     (case handleKeyPress t k sh r of (t', q) \<Rightarrow> (ExplainMounted t', opt_list q, []))"
| "tab_step (QuizMounted t) (SelectDifficulty d) = (QuizMounted (difficulty_onChange t d), [], [])"
| "tab_step (QuizMounted t) (TypeCount v) = (QuizMounted (numQuestions_onChange t v), [], [])"
| "tab_step (QuizMounted t) (ClickQuiz r) =
     (case quiz_click t r of (t', q, lg) \<Rightarrow> (QuizMounted t', opt_list q, lg))"
| "tab_step (QuizMounted t) (ClickToggle i) =
     (if i < length (quiz t) \<and> \<not> isLoading_q t then (QuizMounted (toggleAnswer t i), [], [])
      else (QuizMounted t, [], []))"
| "tab_step c e = (c, [], [])"

text \<open>
  \<open>Index\<close> holds \<open>appState\<close> and shows \<open>UploadView\<close> or \<open>DashboardView\<close>. Besides
  the state of the components, the page has uploads whose reply is still awaited,
  timeouts that have not fired yet, the requests sent so far and the console.
\<close>

datatype app_state = Upload | Dashboard

record app =
  appState :: app_state
  uploadView :: upload_view
  dashboardView :: dashboard_view
  awaited :: nat
  timeouts :: "timeout list"
  sent :: "request list"
  console :: "log_entry list"

definition app_init :: app where
  "app_init =
     \<lparr>appState = Upload, uploadView = upload_init, dashboardView = dashboard_init,
      awaited = 0, timeouts = [], sent = [], console = []\<rparr>"

definition handleUploadSuccess :: "app \<Rightarrow> app" where
  "handleUploadSuccess s = s\<lparr>appState := Dashboard\<rparr>"

datatype event =
    Drop "js_file list"
  | DragOver
  | DragLeave
  | PickFiles "js_file list option"
  | ClickUpload
  | UploadSettles fetch_outcome
  | TimeoutFires
  | ClickTab tab_button
  | InTab tab_event

text \<open>
  One event of the page. The events of a view happen only while the view is shown, and a
  click on a disabled button does nothing. The click on the upload button runs
  \<open>handleUpload\<close> up to its \<open>fetch\<close>; the rest of it runs when the reply settles, which
  may be after the view has been replaced, when its state updates are dropped but the
  timeout is still set.
\<close>

fun step :: "app \<Rightarrow> event \<Rightarrow> app" where
  "step s (Drop files) =
     (if appState s = Upload then s\<lparr>uploadView := handleDrop (uploadView s) files\<rparr> else s)"
| "step s DragOver =
     (if appState s = Upload then s\<lparr>uploadView := handleDragOver (uploadView s)\<rparr> else s)"
| "step s DragLeave =
     (if appState s = Upload then s\<lparr>uploadView := handleDragLeave (uploadView s)\<rparr> else s)"
| "step s (PickFiles files) =
     (if appState s = Upload
      then s\<lparr>uploadView := handleFileInputChange (uploadView s) files\<rparr> else s)"
| "step s ClickUpload =
     (if appState s = Upload \<and> \<not> upload_disabled (uploadView s)
      then (case handleUpload_begin (uploadView s) of
              (u, None) \<Rightarrow> s\<lparr>uploadView := u\<rparr>
            | (u, Some q) \<Rightarrow> s\<lparr>uploadView := u, awaited := Suc (awaited s), sent := sent s @ [q]\<rparr>)
      else s)"
| "step s (UploadSettles r) =
     (if awaited s = 0 then s
      else (case handleUpload_resolve (uploadView s) r of
              (u, ts) \<Rightarrow>
                s\<lparr>uploadView := (if appState s = Upload then u else uploadView s),
                  awaited := awaited s - 1, timeouts := timeouts s @ ts\<rparr>))"
| "step s TimeoutFires =
     (case timeouts s of
        [] \<Rightarrow> s
      | OnUploadSuccess ms # ts \<Rightarrow> handleUploadSuccess (s\<lparr>timeouts := ts\<rparr>))"
| "step s (ClickTab b) =
     (if appState s = Dashboard
      then s\<lparr>dashboardView := setActiveTab (dashboardView s) (tab_id b)\<rparr> else s)"
| "step s (InTab e) =
     (if appState s = Dashboard
      then (case tab_step (content (dashboardView s)) e of
              (c, qs, lg) \<Rightarrow>
                s\<lparr>dashboardView := (dashboardView s)\<lparr>content := c\<rparr>,
                  sent := sent s @ qs, console := console s @ lg\<rparr>)
      else s)"

definition run :: "app \<Rightarrow> event list \<Rightarrow> app" where
  "run s es = foldl step s es"

inductive reachable :: "app \<Rightarrow> bool" where
  start: "reachable app_init"
| after: "reachable s \<Longrightarrow> reachable (step s e)"

text \<open>The upload requests among a list of requests.\<close>

definition uploads :: "request list \<Rightarrow> request list" where
  "uploads qs = filter (\<lambda>q. url q = ''http://localhost:5000/upload'') qs"

section \<open>The quiz operation of the backend\<close>

text \<open>
  The components call a server at \<open>localhost:5000\<close> whose code is not among the sources.
  Its quiz operation is described by the specification (sections 4.5 to 4.7, 6 and 7):
  the Retriever hands chunks to the PromptBuilder, which validates the parameters of the
  task, and the Generator calls the completion service and validates what comes back.
\<close>

text \<open>
  Modelled from the spec: the kinds of failure of section 7, with the kind that the
  user is shown as "malformed input" for parameters that fail validation.
\<close>

datatype error_kind =
    IngestionError
  | EmbeddingServiceError
  | CompletionServiceError
  | EmptyIndexError
  | GenerationFormatError
  | MalformedInputError

text \<open>
  Modelled from the spec: the parameters of a task as they arrive (section 4.6). The
  members of a quiz request are the difficulty and the number of questions.
\<close>

datatype task_params = SummaryParams | ExplainParams json | QuizParams json json

text \<open>
  Modelled from the spec: "task_params are validated: summary (none), explain (non-empty
  question string), quiz (difficulty in {Easy, Medium, Hard}, num_questions integer in
  [1, 20])".
\<close>

fun validate_params :: "task_params \<Rightarrow> bool" where
  "validate_params SummaryParams = True"
| "validate_params (ExplainParams (JStr q)) = (q \<noteq> [])"
| "validate_params (ExplainParams _) = False"
| "validate_params (QuizParams (JStr d) (JNum n)) =
     (d \<in> set [''Easy'', ''Medium'', ''Hard''] \<and> 1 \<le> n \<and> n \<le> 20)"
| "validate_params (QuizParams _ _) = False"

text \<open>
  Modelled from the spec: \<open>build(task_type, retrieved_chunks, task_params)\<close> of the
  PromptBuilder. The prompt keeps the task and the chunks it was built from; the wording
  of the templates and the truncation to the context budget are not described further.
\<close>

record prompt =
  task :: task_params
  chunks :: "string list"

definition build :: "string list \<Rightarrow> task_params \<Rightarrow> error_kind + prompt" where
  "build cs ps = (if validate_params ps then Inr \<lparr>task = ps, chunks = cs\<rparr> else Inl MalformedInputError)"

text \<open>
  Modelled from the spec: one answer of the completion service to a quiz prompt, after
  parsing: text that is not the JSON shape asked for, or a list of questions.
\<close>

datatype completion = Unparseable | Parsed "quiz_question list"

text \<open>
  Modelled from the spec: the validation of the Generator (section 4.7), "options set is
  non-empty and of the declared size, answer is exactly one of options, and the count of
  returned questions matches the request". Of the policies left open for a count that
  differs, the one taken here is to treat it as a validation failure.
\<close>

definition valid_question :: "nat \<Rightarrow> quiz_question \<Rightarrow> bool" where
  "valid_question k q = (options q \<noteq> [] \<and> length (options q) = k \<and> answer q \<in> set (options q))"

definition valid_quiz :: "nat \<Rightarrow> nat \<Rightarrow> quiz_question list \<Rightarrow> bool" where
  "valid_quiz k n qs = (length qs = n \<and> list_all (valid_question k) qs)"

text \<open>
  Modelled from the spec: "On parse or validation failure, retries generation up to a
  bounded count [...] before surfacing GenerationFormatError". \<open>svc i\<close> is what the
  completion service answers to call number \<open>i\<close>; the result comes with the number of
  calls made.
\<close>

fun generate_quiz :: "nat \<Rightarrow> nat \<Rightarrow> (nat \<Rightarrow> completion) \<Rightarrow> nat \<Rightarrow> nat
    \<Rightarrow> (error_kind + quiz_question list) \<times> nat" where
  "generate_quiz k n svc 0 i = (Inl GenerationFormatError, i)"
| "generate_quiz k n svc (Suc left) i =
     (case svc i of
        Unparseable \<Rightarrow> generate_quiz k n svc left (Suc i)
      | Parsed qs \<Rightarrow>
          if valid_quiz k n qs then (Inr qs, Suc i) else generate_quiz k n svc left (Suc i))"

text \<open>
  Modelled from the spec: the configured option count and the bound on corrective
  retries.
\<close>

record quiz_config =
  option_count :: nat
  max_retries :: nat

fun requested :: "task_params \<Rightarrow> nat" where
  "requested (QuizParams d (JNum n)) = nat n"
| "requested _ = 0"

text \<open>
  Modelled from the spec: the quiz operation, following the request states Retrieving,
  Prompting, Generating, Validating. \<open>retrieved\<close> is the outcome of the Retriever for
  this request (\<open>EmptyIndexError\<close> when no session is active); \<open>svc p\<close> is the completion
  service on prompt \<open>p\<close>. The second component counts the calls of the completion
  service.
\<close>

definition quiz_operation :: "quiz_config \<Rightarrow> error_kind + string list
    \<Rightarrow> (prompt \<Rightarrow> nat \<Rightarrow> completion) \<Rightarrow> json \<Rightarrow> json
    \<Rightarrow> (error_kind + quiz_question list) \<times> nat" where
  "quiz_operation cfg retrieved svc d n =
     (case retrieved of
        Inl e \<Rightarrow> (Inl e, 0)
      | Inr cs \<Rightarrow>
          (case build cs (QuizParams d n) of
             Inl e \<Rightarrow> (Inl e, 0)
           | Inr p \<Rightarrow>
               generate_quiz (option_count cfg) (requested (task p)) (svc p)
                 (Suc (max_retries cfg)) 0))"

text \<open>
  Whether \<open>response.json()\<close> gave a value, whether that value has members that can be
  read, and the \<open>error\<close> member of it.
\<close>

fun body_parsed :: "fetch_outcome \<Rightarrow> bool" where
  "body_parsed (Response ok (Some d)) = True"
| "body_parsed (NullBody ok) = True"
| "body_parsed r = False"

fun has_body :: "fetch_outcome \<Rightarrow> bool" where
  "has_body (Response ok (Some d)) = True"
| "has_body r = False"

fun reply_error :: "fetch_outcome \<Rightarrow> string option" where
  "reply_error (Response ok (Some d)) = error_field d"
| "reply_error r = None"

section \<open>Properties of the states of the page\<close>

text \<open>Whatever has been selected or sent as a file is a PDF.\<close>

definition pdf_only :: "app \<Rightarrow> bool" where
  "pdf_only s =
     ((\<forall>f. selectedFile (uploadView s) = Some f \<longrightarrow> ftype f = ''application/pdf'')
      \<and> (\<forall>q \<in> set (sent s). \<forall>f \<in> set (files_of q). ftype f = ''application/pdf''))"

text \<open>
  The difficulty of a mounted quiz tab, and the difficulty named in a request that has
  been sent, is one of the three options.
\<close>

definition difficulty_ok :: "app \<Rightarrow> bool" where
  "difficulty_ok s =
     ((\<forall>t. content (dashboardView s) = QuizMounted t \<longrightarrow>
          quizDifficulty t \<in> {''Easy'', ''Medium'', ''Hard''})
      \<and> (\<forall>q \<in> set (sent s). \<forall>d. difficulty_of q = Some d \<longrightarrow>
          d \<in> {JStr ''Easy'', JStr ''Medium'', JStr ''Hard''}))"

section \<open>Sample data\<close>

definition sample_question :: quiz_question where
  "sample_question =
     \<lparr>question = ''Which gas does photosynthesis release?'',
      options = [''Oxygen'', ''Nitrogen'', ''Helium'', ''Argon''], answer = ''Oxygen''\<rparr>"

definition sample_config :: quiz_config where
  "sample_config = \<lparr>option_count = 4, max_retries = 2\<rparr>"

definition sample_reply :: reply where
  "sample_reply =
     \<lparr>error_field = None, summary_field = [], explanation_field = [], quiz_field = []\<rparr>"

definition sample_pdf :: js_file where
  "sample_pdf = \<lparr>fname = ''notes.pdf'', ftype = ''application/pdf'', fsize = 1024\<rparr>"

text \<open>The page after \<open>sample_pdf\<close> has been picked.\<close>

definition sample_page :: app where
  "sample_page = app_init\<lparr>uploadView := upload_init\<lparr>selectedFile := Some sample_pdf\<rparr>\<rparr>"

text \<open>Two replies with an error status that name different errors.\<close>

definition no_document_reply :: reply where
  "no_document_reply = sample_reply\<lparr>error_field := Some ''No document loaded''\<rparr>"

definition service_down_reply :: reply where
  "service_down_reply = sample_reply\<lparr>error_field := Some ''Service unavailable''\<rparr>"

definition sample_image :: js_file where
  "sample_image = \<lparr>fname = ''leaf.png'', ftype = ''image/png'', fsize = 2048\<rparr>"

text \<open>
  A session that starts from \<open>sample_page\<close>: the upload succeeds, the dashboard opens,
  and a hard quiz is asked for.
\<close>

definition upload_succeeds :: "event list" where
  "upload_succeeds = [ClickUpload, UploadSettles (Response True (Some sample_reply))]"

definition sample_session :: "event list" where
  "sample_session =
     upload_succeeds @
     [TimeoutFires, ClickTab TabQuiz, InTab (SelectDifficulty OptHard),
      InTab (ClickQuiz NetworkFailure)]"

text \<open>A second PDF, picked and uploaded before the timeout of the first upload fires.\<close>

definition second_pdf :: js_file where
  "second_pdf = \<lparr>fname = ''slides.pdf'', ftype = ''application/pdf'', fsize = 4096\<rparr>"

definition second_upload :: "event list" where
  "second_upload =
     [PickFiles (Some [second_pdf]), ClickUpload,
      UploadSettles (Response True (Some sample_reply))]"

text \<open>
  The upload succeeds, the button is clicked once more, and the timeout of the first
  upload fires while the reply to the second is still awaited.
\<close>

definition late_reply :: "event list" where
  "late_reply = upload_succeeds @ [ClickUpload, TimeoutFires]"

section \<open>Printing and parsing a number\<close>

lemma digit_char: "d < 10 \<Longrightarrow> digitValue (char_of (48 + d)) = Some d"
  by (simp add: digitValue_def Let_def)

lemma digit_char_radix: "(d::nat) < 10 \<Longrightarrow> isRadixDigit 10 (char_of (48 + d))"
  by (simp add: isRadixDigit_def digit_char)

lemma digit_char_of: "d < 10 \<Longrightarrow> digitOf (char_of (48 + d)) = d"
  by (simp add: digitOf_def digit_char)

lemma digits10_nonempty: "digits10 n \<noteq> []"
  by (subst digits10.simps) simp

lemma digits10_radix: "c \<in> set (digits10 n) \<Longrightarrow> isRadixDigit 10 c"
proof (induction n arbitrary: c rule: digits10.induct)
  case (1 n)
  show ?case
  proof (cases "n < 10")
    case True
    with "1.prems" show ?thesis
      by (subst (asm) digits10.simps) (simp add: digit_char_radix)
  next
    case False
    with "1.prems" have "c \<in> set (digits10 (n div 10)) \<or> c = char_of (48 + n mod 10)"
      by (subst (asm) digits10.simps) auto
    with False "1.IH" show ?thesis
      by (auto simp: digit_char_radix)
  qed
qed

lemma digits10_length: "x < 10 ^ n \<Longrightarrow> 0 < n \<Longrightarrow> length (digits10 x) \<le> n"
proof (induction x arbitrary: n rule: digits10.induct)
  case (1 x)
  show ?case
  proof (cases "x < 10")
    case True
    with "1.prems" show ?thesis
      by (subst digits10.simps) simp
  next
    case False
    with "1.prems" obtain k where n: "n = Suc k"
      by (cases n) auto
    with "1.prems" False have "0 < k"
      by (cases k) auto
    moreover from "1.prems" n have "x div 10 < 10 ^ k"
      by (simp add: less_mult_imp_div_less mult.commute)
    ultimately have "length (digits10 (x div 10)) \<le> k"
      using "1.IH" False by simp
    with False n show ?thesis
      by (subst digits10.simps) simp
  qed
qed

lemma mathInt_snoc: "mathInt R (z @ [c]) = mathInt R z * R + digitOf c"
  by (simp add: mathInt_def)

lemma mathInt_digits10: "mathInt 10 (digits10 n) = n"
proof (induction n rule: digits10.induct)
  case (1 n)
  show ?case
  proof (cases "n < 10")
    case True
    then show ?thesis
      by (subst digits10.simps) (simp add: mathInt_def digit_char_of)
  next
    case False
    with "1.IH" have "mathInt 10 (digits10 (n div 10)) = n div 10" by simp
    with False show ?thesis
      by (subst digits10.simps) (simp add: mathInt_snoc digit_char_of)
  qed
qed

lemma radix_digit_plain:
  "isRadixDigit 10 c \<Longrightarrow>
     \<not> isWhiteSpace c \<and> c \<noteq> CHR ''-'' \<and> c \<noteq> CHR ''+'' \<and> c \<noteq> CHR ''x'' \<and> c \<noteq> CHR ''X''"
  by (auto simp: isRadixDigit_def digitValue_def Let_def isWhiteSpace_def
      split: if_splits option.splits)

lemma takeWhile_digits10: "takeWhile (isRadixDigit 10) (digits10 n) = digits10 n"
  by (simp add: digits10_radix)

lemma stripPrefix_digits10: "stripPrefix (digits10 n) = (10, digits10 n)"
proof (cases "digits10 n")
  case Nil
  then show ?thesis by (simp add: stripPrefix_def)
next
  case (Cons c t)
  show ?thesis
  proof (cases t)
    case Nil
    with Cons show ?thesis by (simp add: stripPrefix_def)
  next
    case (Cons x u)
    with \<open>digits10 n = c # t\<close> have "x \<in> set (digits10 n)" by simp
    then have "x \<noteq> CHR ''x'' \<and> x \<noteq> CHR ''X''"
      using digits10_radix radix_digit_plain by blast
    with Cons \<open>digits10 n = c # t\<close> show ?thesis by (simp add: stripPrefix_def)
  qed
qed

text \<open>Reading back the plain decimal digits of \<open>n\<close> gives \<open>n\<close> rounded.\<close>

lemma parseInt_digits10:
  "parseInt (digits10 n) = (case roundDouble n of None \<Rightarrow> PosInfinity | Some v \<Rightarrow> Num (int v))"
proof -
  obtain c t where ct: "digits10 n = c # t"
    using digits10_nonempty by (cases "digits10 n") auto
  then have "c \<in> set (digits10 n)" by simp
  then have plain: "\<not> isWhiteSpace c \<and> c \<noteq> CHR ''-'' \<and> c \<noteq> CHR ''+''"
    using digits10_radix radix_digit_plain by blast
  have ws: "dropWhile isWhiteSpace (digits10 n) = digits10 n"
    using ct plain by simp
  have sg: "stripSign (digits10 n) = (1, digits10 n)"
    using ct plain by (simp add: stripSign_def)
  show ?thesis
    by (simp add: parseInt_def ws sg stripPrefix_digits10 takeWhile_digits10
        digits10_nonempty mathInt_digits10 split: option.splits)
qed

lemma parseInt_minus_digits10:
  "parseInt (CHR ''-'' # digits10 n)
     = (case roundDouble n of None \<Rightarrow> NegInfinity | Some v \<Rightarrow> Num (- int v))"
proof -
  have ws: "dropWhile isWhiteSpace (CHR ''-'' # digits10 n) = CHR ''-'' # digits10 n"
    by (simp add: isWhiteSpace_def)
  have sg: "stripSign (CHR ''-'' # digits10 n) = (- 1, digits10 n)"
    by (simp add: stripSign_def)
  show ?thesis
    unfolding parseInt_def ws sg
    by (simp add: stripPrefix_digits10 takeWhile_digits10 digits10_nonempty mathInt_digits10
        split: option.splits)
qed

text \<open>Numbers below \<open>2^53\<close> are doubles.\<close>

lemma bitlen_le: "n < 2 ^ k \<Longrightarrow> bitlen n \<le> k"
proof (induction k arbitrary: n)
  case 0
  then show ?case by (subst bitlen.simps) simp
next
  case (Suc k)
  from Suc.prems have "n div 2 < 2 ^ k" by simp
  then have "bitlen (n div 2) \<le> k" by (rule Suc.IH)
  then show ?case by (subst bitlen.simps) simp
qed

lemma roundDouble_small: "n < 2 ^ 53 \<Longrightarrow> roundDouble n = Some n"
  by (simp add: roundDouble_def bitlen_le)

lemma isDouble_small: "\<bar>k\<bar> < 2 ^ 53 \<Longrightarrow> isDouble k"
proof -
  assume "\<bar>k\<bar> < 2 ^ 53"
  then have "nat \<bar>k\<bar> < 2 ^ 53"
    by (simp add: nat_less_iff)
  then show ?thesis
    by (simp add: isDouble_def roundDouble_small)
qed

text \<open>The number that is printed rounds to the number that was to be printed.\<close>

lemma shortest_from_round:
  "roundDouble x = Some x \<Longrightarrow> roundDouble (shortest_from x j) = Some x"
  by (induction j) (simp_all add: Let_def)

lemma bitlen_eq: "2 ^ k \<le> n \<Longrightarrow> n < 2 ^ Suc k \<Longrightarrow> bitlen n = Suc k"
proof (induction k arbitrary: n)
  case 0
  then have "n = 1" by simp
  then show ?case by (simp add: bitlen.simps)
next
  case (Suc k)
  from Suc.prems have "2 ^ k \<le> n div 2" and "n div 2 < 2 ^ Suc k" by simp_all
  then have "bitlen (n div 2) = Suc k" by (rule Suc.IH)
  moreover from Suc.prems have "n \<noteq> 0" by auto
  ultimately show ?case by (subst bitlen.simps) simp
qed

lemma bitlen_plain_limit: "bitlen plain_limit = 70"
proof -
  have "bitlen plain_limit = Suc 69"
    by (rule bitlen_eq) (simp_all add: plain_limit_def)
  then show ?thesis by simp
qed

lemma roundDouble_plain_limit: "roundDouble plain_limit = Some plain_limit"
  by (simp add: roundDouble_def bitlen_plain_limit Let_def) (simp add: plain_limit_def)

lemma next_multiple_bound:
  assumes "x < plain_limit" and "i \<le> 21"
  shows "(x div 10 ^ i) * 10 ^ i + 10 ^ i \<le> plain_limit"
proof -
  let ?p = "(10::nat) ^ i"
  let ?c = "(10::nat) ^ (21 - i)"
  have split: "plain_limit = ?c * ?p"
    using assms(2) by (metis le_add_diff_inverse2 power_add plain_limit_def)
  have "(x div ?p) * ?p \<le> x" by simp
  then have "(x div ?p) * ?p < ?c * ?p"
    using assms(1) unfolding split by (rule le_less_trans)
  then have "x div ?p < ?c" by simp
  then have "Suc (x div ?p) \<le> ?c" by simp
  then have "Suc (x div ?p) * ?p \<le> ?c * ?p" by (rule mult_le_mono1)
  then show ?thesis unfolding split by simp
qed

lemma shortest_from_bound:
  "x < plain_limit \<Longrightarrow> roundDouble x = Some x \<Longrightarrow> j \<le> 20 \<Longrightarrow>
     shortest_from x j < plain_limit"
proof (induction j)
  case 0
  then show ?case by simp
next
  case (Suc j)
  let ?p = "(10::nat) ^ Suc j"
  let ?lo = "(x div ?p) * ?p"
  let ?hi = "?lo + ?p"
  have lo: "?lo < plain_limit"
  proof -
    have "?lo \<le> x" by simp
    then show ?thesis using Suc.prems(1) by (rule le_less_trans)
  qed
  have hi: "?hi < plain_limit" if ok: "roundDouble ?hi = Some x"
  proof -
    from Suc.prems(3) have "Suc j \<le> 21" by simp
    with Suc.prems(1) have le: "?hi \<le> plain_limit"
      by (rule next_multiple_bound)
    have "?hi \<noteq> plain_limit"
    proof
      assume "?hi = plain_limit"
      with ok have "roundDouble plain_limit = Some x" by simp
      with Suc.prems(1) show False by (simp add: roundDouble_plain_limit)
    qed
    with le show ?thesis by simp
  qed
  from Suc have rest: "shortest_from x j < plain_limit" by simp
  show ?case
    using lo hi rest by (simp add: Let_def del: power_Suc)
qed

lemma shortest_plain:
  assumes "x < plain_limit" and "roundDouble x = Some x"
  shows "shortest x < plain_limit" and "roundDouble (shortest x) = Some x"
proof -
  from assms(1) have "x < 10 ^ 21" by (simp add: plain_limit_def)
  then have "length (digits10 x) \<le> 21"
    by (rule digits10_length) simp
  then have "length (digits10 x) - 1 \<le> 20" by simp
  with assms show "shortest x < plain_limit"
    unfolding shortest_def by (rule shortest_from_bound)
  from assms(2) show "roundDouble (shortest x) = Some x"
    unfolding shortest_def by (rule shortest_from_round)
qed

lemma parseInt_printNat:
  assumes "x < plain_limit" and "roundDouble x = Some x"
  shows "parseInt (printNat x) = Num (int x)"
    and "parseInt (CHR ''-'' # printNat x) = Num (- int x)"
  using shortest_plain [OF assms]
  by (simp_all add: printNat_def parseInt_digits10 parseInt_minus_digits10)

lemma parseInt_toString:
  assumes "isDouble k" and "\<bar>k\<bar> < 10 ^ 21"
  shows "parseInt (toString (Num k)) = Num k"
proof -
  from assms(2) have b: "nat \<bar>k\<bar> < plain_limit"
    by (simp add: nat_less_iff plain_limit_def)
  from assms(1) have d: "roundDouble (nat \<bar>k\<bar>) = Some (nat \<bar>k\<bar>)"
    by (simp add: isDouble_def)
  show ?thesis
  proof (cases "k < 0")
    case True
    then have "nat \<bar>k\<bar> = nat (- k)" by simp
    with b d True show ?thesis
      using parseInt_printNat(2) [of "nat (- k)"] by simp
  next
    case False
    then have "nat \<bar>k\<bar> = nat k" by simp
    with b d False show ?thesis
      using parseInt_printNat(1) [of "nat k"] by simp
  qed
qed

text \<open>At \<open>10^21\<close> the text has an exponent, and only its first digit is read back.\<close>

lemma shortest_from_exact:
  "(x div 10 ^ Suc j) * 10 ^ Suc j = x \<Longrightarrow> roundDouble x = Some x \<Longrightarrow>
     shortest_from x (Suc j) = x"
  by (simp add: Let_def del: power_Suc)

lemma digits10_plain_limit: "digits10 plain_limit = ''1000000000000000000000''"
  by (simp add: plain_limit_def digits10.simps char_of_eq_iff)

lemma length_plain_limit: "length (digits10 plain_limit) - 1 = Suc 20"
  by (simp add: digits10_plain_limit eval_nat_numeral)

lemma shortest_plain_limit: "shortest plain_limit = plain_limit"
proof -
  have "shortest plain_limit = shortest_from plain_limit (Suc 20)"
    by (simp only: shortest_def length_plain_limit)
  also have "\<dots> = plain_limit"
  proof (rule shortest_from_exact)
    show "plain_limit div 10 ^ Suc 20 * 10 ^ Suc 20 = plain_limit"
      by (simp add: plain_limit_def)
    show "roundDouble plain_limit = Some plain_limit"
      by (rule roundDouble_plain_limit)
  qed
  finally show ?thesis .
qed

lemma digits10_21: "digits10 (Suc 20) = ''21''"
  by (simp add: digits10.simps char_of_eq_iff)

lemma length_literal: "length ''1000000000000000000000'' - 1 = Suc 20"
  by (simp add: eval_nat_numeral)

lemma exponential_plain_limit: "exponential plain_limit = ''1e+21''"
  by (simp only: exponential_def Let_def digits10_plain_limit length_literal digits10_21)
     simp

lemma toString_plain_limit: "toString (Num (int plain_limit)) = ''1e+21''"
  by (simp add: printNat_def shortest_plain_limit exponential_plain_limit)

text \<open>What has been rounded is a double, so every integer that \<open>parseInt\<close> returns is one.\<close>

lemma bitlen_bounds: "0 < n \<Longrightarrow> 2 ^ (bitlen n - 1) \<le> n \<and> n < 2 ^ bitlen n"
proof (induction n rule: bitlen.induct)
  case (1 n)
  show ?case
  proof (cases "n div 2 = 0")
    case True
    with "1.prems" have "n = 1" by (simp add: div_eq_0_iff) 
    then show ?thesis by (simp add: bitlen.simps)
  next
    case False
    then have pos: "0 < n div 2" by simp
    with "1.IH" "1.prems" have ih: "2 ^ (bitlen (n div 2) - 1) \<le> n div 2"
      "n div 2 < 2 ^ bitlen (n div 2)" by simp_all
    from pos have bp: "0 < bitlen (n div 2)"
      by (subst bitlen.simps) simp
    have b: "bitlen n = Suc (bitlen (n div 2))"
      using "1.prems" by (subst bitlen.simps) simp
    from ih(1) have "2 * 2 ^ (bitlen (n div 2) - 1) \<le> n" by simp
    with bp have lo: "2 ^ (bitlen n - 1) \<le> n"
      by (simp add: b power_Suc [symmetric] del: power_Suc)
    from ih(2) have hi: "n < 2 ^ bitlen n"
      by (simp add: b)
    from lo hi show ?thesis by simp
  qed
qed

lemma roundDouble_exact:
  assumes m: "2 ^ 52 \<le> m" "m \<le> 2 ^ 53" and e: "0 < e" and fin: "m * 2 ^ e < 2 ^ 1024"
  shows "roundDouble (m * 2 ^ e) = Some (m * 2 ^ e)"
proof (cases "m = 2 ^ 53")
  case True
  have v: "m * 2 ^ e = 2 ^ (53 + e)"
    by (simp only: True power_add)
  have bl: "bitlen (2 ^ (53 + e)) = Suc (53 + e)"
    by (rule bitlen_eq) simp_all
  have "53 + e = 52 + Suc e" by simp
  then have prod: "(2::nat) ^ (53 + e) = 2 ^ 52 * 2 ^ Suc e"
    by (simp only: power_add)
  have d: "(2::nat) ^ (53 + e) div 2 ^ Suc e = 2 ^ 52" "(2::nat) ^ (53 + e) mod 2 ^ Suc e = 0"
    unfolding prod by simp_all
  have sub: "Suc (53 + e) - 53 = Suc e" by simp
  from fin have fin': "\<not> (2::nat) ^ 1024 \<le> 2 ^ 52 * 2 ^ Suc e"
    unfolding v prod by simp
  have "roundDouble (2 ^ (53 + e)) = Some (2 ^ 52 * 2 ^ Suc e)"
    unfolding roundDouble_def Let_def bl sub d using fin' by simp
  then have "roundDouble (2 ^ (53 + e)) = Some (2 ^ (53 + e))"
    by (simp only: prod)
  then show ?thesis by (simp only: v)
next
  case False
  with m have lt: "m < 2 ^ 53" by simp
  have "2 ^ (52 + e) \<le> m * 2 ^ e"
    using m(1) by (simp add: power_add)
  moreover have "m * 2 ^ e < 2 ^ Suc (52 + e)"
    using lt by (simp add: power_add)
  ultimately have bl: "bitlen (m * 2 ^ e) = Suc (52 + e)"
    by (rule bitlen_eq)
  show ?thesis
    using fin e by (simp add: roundDouble_def bl Let_def)
qed

lemma roundDouble_idem: "roundDouble n = Some v \<Longrightarrow> roundDouble v = Some v"
proof (cases "bitlen n \<le> 53")
  case True
  assume "roundDouble n = Some v"
  with True show ?thesis by (simp add: roundDouble_def)
next
  case False
  assume r: "roundDouble n = Some v"
  define e where "e = bitlen n - 53"
  define m where "m = n div 2 ^ e"
  define m' where "m' = (if 2 ^ (e - 1) < n mod 2 ^ e \<or> (n mod 2 ^ e = 2 ^ (e - 1) \<and> odd m)
    then m + 1 else m)"
  from False have e: "0 < e" and bn: "bitlen n = 53 + e" by (simp_all add: e_def)
  then have "0 < n" by (cases "n = 0") (simp_all add: bitlen.simps)
  then have nb: "2 ^ (52 + e) \<le> n" "n < 2 ^ (53 + e)"
    using bitlen_bounds [of n] by (simp_all add: bn)
  have "2 ^ 52 * 2 ^ e \<le> n" using nb(1) by (simp add: power_add)
  then have mlo: "2 ^ 52 \<le> m"
    unfolding m_def by (simp add: less_eq_div_iff_mult_less_eq)
  have "n < 2 ^ 53 * 2 ^ e" using nb(2) by (simp add: power_add)
  then have mhi: "m < 2 ^ 53"
    unfolding m_def by (simp add: less_mult_imp_div_less)
  have m': "2 ^ 52 \<le> m'" "m' \<le> 2 ^ 53"
    using mlo mhi by (simp_all add: m'_def)
  have "roundDouble n = (if 2 ^ 1024 \<le> m' * 2 ^ e then None else Some (m' * 2 ^ e))"
    unfolding roundDouble_def Let_def m'_def m_def e_def using False by (simp only: if_False)
  with r have "(if 2 ^ 1024 \<le> m' * 2 ^ e then None else Some (m' * 2 ^ e)) = Some v"
    by simp
  then have v: "v = m' * 2 ^ e" and fin: "m' * 2 ^ e < 2 ^ 1024"
    by (simp_all split: if_splits)
  show ?thesis
    unfolding v using m' e fin by (rule roundDouble_exact)
qed

lemma parseInt_isDouble: "parseInt s = Num k \<Longrightarrow> isDouble k"
proof -
  assume p: "parseInt s = Num k"
  obtain sign s1 where sg: "stripSign (dropWhile isWhiteSpace s) = (sign, s1)"
    by (cases "stripSign (dropWhile isWhiteSpace s)") auto
  obtain R s2 where pr: "stripPrefix s1 = (R, s2)"
    by (cases "stripPrefix s1") auto
  have sign: "sign = 1 \<or> sign = - 1"
    using sg by (auto simp: stripSign_def split: list.splits if_splits)
  from p obtain v where v: "roundDouble (mathInt R (takeWhile (isRadixDigit R) s2)) = Some v"
    and k: "k = sign * int v"
    by (auto simp: parseInt_def sg pr Let_def split: if_splits option.splits)
  from sign k have "nat \<bar>k\<bar> = v" by auto
  with roundDouble_idem [OF v] show ?thesis
    by (simp add: isDouble_def)
qed

lemmas parseInt_eval = parseInt_def isWhiteSpace_def stripSign_def stripPrefix_def
  isRadixDigit_def digitValue_def digitOf_def mathInt_def Let_def roundDouble_small

lemma parseInt_exponent: "parseInt (toString (Num (int plain_limit))) = Num 1"
  by (simp only: toString_plain_limit) (simp add: parseInt_eval)

section \<open>Explain requests carry a non-blank question\<close>

lemma handleExplain_sent:
  "snd (handleExplain s r) = Some rq \<Longrightarrow>
     rq = explain_request (conceptQuery s) \<and> trim (conceptQuery s) \<noteq> []"
  by (auto simp: handleExplain_def handleExplain_begin_def split: if_splits)

lemma handleExplain_blank:
  "trim (conceptQuery s) = [] \<Longrightarrow> handleExplain s r = (s, None)"
  by (simp add: handleExplain_def handleExplain_begin_def)

text \<open>
  Claim C4. Whichever way the question is submitted (the button or the Enter key), a
  request that is sent carries as its \<open>query\<close> the entered question, and that question is
  not empty after trimming; when the entered question is empty or consists of white
  space only, no request is sent and the state is left as it was.
\<close>

theorem explain_request_nonblank:
  "(snd (handleExplain s r) = Some rq \<or> snd (explain_click s r) = Some rq
      \<or> snd (handleKeyPress s key shiftKey r) = Some rq
    \<longrightarrow> (\<exists>q. query_of rq = Some q \<and> q = conceptQuery s \<and> trim q \<noteq> []))
   \<and> (trim (conceptQuery s) = []
    \<longrightarrow> handleExplain s r = (s, None) \<and> explain_click s r = (s, None)
        \<and> handleKeyPress s key shiftKey r = (s, None))"
proof (intro conjI impI)
  assume sent: "snd (handleExplain s r) = Some rq \<or> snd (explain_click s r) = Some rq
      \<or> snd (handleKeyPress s key shiftKey r) = Some rq"
  have "snd (handleExplain s r) = Some rq"
    using sent by (auto simp: explain_click_def handleKeyPress_def split: if_splits)
  then have "rq = explain_request (conceptQuery s)" and "trim (conceptQuery s) \<noteq> []"
    using handleExplain_sent by blast+
  then show "\<exists>q. query_of rq = Some q \<and> q = conceptQuery s \<and> trim q \<noteq> []"
    by (simp add: explain_request_def)
next
  assume blank: "trim (conceptQuery s) = []"
  then show "handleExplain s r = (s, None)"
    by (rule handleExplain_blank)
  from blank show "explain_click s r = (s, None)"
    by (simp add: explain_click_def handleExplain_blank)
  from blank show "handleKeyPress s key shiftKey r = (s, None)"
    by (simp add: handleKeyPress_def handleExplain_blank)
qed

theorem explain_request_nonblank_witness:
  "snd (handleExplain (explain_init\<lparr>conceptQuery := '' What produces oxygen?''\<rparr>)
        (Response True (Some \<lparr>error_field = None, summary_field = [],
           explanation_field = ''Water'', quiz_field = []\<rparr>)))
     = Some (explain_request '' What produces oxygen?'')
   \<and> query_of (explain_request '' What produces oxygen?'') = Some '' What produces oxygen?''
   \<and> trim '' What produces oxygen?'' \<noteq> []
   \<and> trim ''   '' = []
   \<and> handleExplain (explain_init\<lparr>conceptQuery := ''   ''\<rparr>) NetworkFailure
       = (explain_init\<lparr>conceptQuery := ''   ''\<rparr>, None)"
  using explain_request_nonblank [of "explain_init\<lparr>conceptQuery := '' What produces oxygen?''\<rparr>"
      "Response True (Some \<lparr>error_field = None, summary_field = [],
         explanation_field = ''Water'', quiz_field = []\<rparr>)"
      "explain_request '' What produces oxygen?''" "''Enter''" False]
    explain_request_nonblank [of "explain_init\<lparr>conceptQuery := ''   ''\<rparr>" NetworkFailure
      "explain_request []" "''Enter''" False]
  by (simp add: handleExplain_def handleExplain_begin_def trim_def isWhiteSpace_def
      explain_init_def)

section \<open>The quiz operation returns validated questions only\<close>

lemma generate_quiz_valid:
  "generate_quiz k n svc left i = (Inr qs, c) \<Longrightarrow> valid_quiz k n qs"
proof (induction left arbitrary: i)
  case 0
  then show ?case by simp
next
  case (Suc left)
  then show ?case
    by (auto split: completion.splits if_splits)
qed

lemma generate_quiz_calls:
  "generate_quiz k n svc left i = (res, c) \<Longrightarrow> i \<le> c \<and> c \<le> i + left \<and> (0 < left \<longrightarrow> i < c)"
proof (induction left arbitrary: i)
  case 0
  then show ?case by simp
next
  case (Suc left)
  then show ?case
    by (fastforce split: completion.splits if_splits)
qed

lemma generate_quiz_succeeds:
  "j < left \<Longrightarrow> svc (i + j) = Parsed qs \<Longrightarrow> valid_quiz k n qs \<Longrightarrow>
     \<exists>qs' c. generate_quiz k n svc left i = (Inr qs', c)"
proof (induction left arbitrary: i j)
  case 0
  then show ?case by simp
next
  case (Suc left)
  show ?case
  proof (cases j)
    case 0
    with Suc.prems show ?thesis by simp
  next
    case (Suc j')
    with Suc.prems have "j' < left" and "svc (Suc i + j') = Parsed qs" by simp_all
    with Suc.IH Suc.prems(3) obtain qs' c where
      "generate_quiz k n svc left (Suc i) = (Inr qs', c)" by blast
    then show ?thesis
      by (auto split: completion.splits)
  qed
qed

lemma generate_quiz_exhausted:
  "(\<And>j qs. j < left \<Longrightarrow> svc (i + j) = Parsed qs \<Longrightarrow> \<not> valid_quiz k n qs) \<Longrightarrow>
     generate_quiz k n svc left i = (Inl GenerationFormatError, i + left)"
proof (induction left arbitrary: i)
  case 0
  then show ?case by simp
next
  case (Suc left)
  have rest: "generate_quiz k n svc left (Suc i) = (Inl GenerationFormatError, Suc i + left)"
  proof (rule Suc.IH)
    fix j qs
    assume "j < left" and "svc (Suc i + j) = Parsed qs"
    then show "\<not> valid_quiz k n qs"
      using Suc.prems [of "Suc j" qs] by simp
  qed
  have first: "\<And>qs. svc i = Parsed qs \<Longrightarrow> \<not> valid_quiz k n qs"
    using Suc.prems [of 0] by simp
  show ?case
    using rest first by (auto split: completion.splits)
qed

lemma quiz_operation_valid:
  "quiz_operation cfg retrieved svc d n = (Inr qs, c) \<Longrightarrow>
     valid_quiz (option_count cfg) (requested (QuizParams d n)) qs"
  by (auto simp: quiz_operation_def build_def simp del: generate_quiz.simps
      split: sum.splits if_splits dest: generate_quiz_valid)

lemma quiz_operation_rejects:
  "\<not> validate_params (QuizParams d n) \<Longrightarrow>
     \<exists>e. quiz_operation cfg retrieved svc d n = (Inl e, 0)"
  by (auto simp: quiz_operation_def build_def split: sum.splits)

lemma handleGenerateQuiz_stores:
  "quiz (fst (handleGenerateQuiz s (Response True (Some d)))) = quiz_field d"
  by (simp add: handleGenerateQuiz_def handleGenerateQuiz_begin_def handleGenerateQuiz_resolve_def)

lemma handleGenerateQuiz_request:
  "fst (snd (handleGenerateQuiz s r)) = quiz_request (quizDifficulty s) (numQuestions s)"
  by (simp add: handleGenerateQuiz_def handleGenerateQuiz_begin_def split: prod.splits)

text \<open>
  Claim C1. Every quiz that the quiz operation returns has passed the validation of the
  Generator: in each of its questions the answer is one of the options, and the number
  of options is the configured option count. The quiz tab stores the quiz of a successful
  reply as it is, without a check of its own, so the same holds of every question it
  shows, and showing the answer of such a question draws at least one of its options in
  green.
\<close>

theorem quiz_answer_among_options:
  assumes "quiz_operation cfg retrieved svc d n = (Inr qs, c)"
    and "quiz_field data = qs"
  shows "quiz (fst (handleGenerateQuiz s (Response True (Some data)))) = qs
    \<and> (\<forall>q \<in> set qs. answer q \<in> set (options q) \<and> length (options q) = option_count cfg
          \<and> (\<forall>v i. i \<in> visibleAnswers v \<longrightarrow> highlighted v i q \<noteq> []))"
proof -
  have "valid_quiz (option_count cfg) (requested (QuizParams d n)) qs"
    using assms(1) by (rule quiz_operation_valid)
  then have "\<forall>q \<in> set qs. valid_question (option_count cfg) q"
    by (simp add: valid_quiz_def list_all_iff)
  then show ?thesis
    using assms(2)
    by (auto simp: handleGenerateQuiz_stores valid_question_def highlighted_def
        filter_empty_conv)
qed

section \<open>Sample data\<close>


theorem quiz_answer_among_options_witness:
  "quiz_operation sample_config (Inr [''Plants release oxygen.''])
      (\<lambda>p i. if i = 0 then Parsed [sample_question\<lparr>answer := ''Ozone''\<rparr>]
              else Parsed [sample_question])
      (JStr ''Medium'') (JNum 1) = (Inr [sample_question], 2)
   \<and> quiz (fst (handleGenerateQuiz quiz_init
        (Response True (Some (sample_reply\<lparr>quiz_field := [sample_question]\<rparr>))))) = [sample_question]
   \<and> answer sample_question \<in> set (options sample_question)
   \<and> length (options sample_question) = option_count sample_config"
proof -
  have run: "quiz_operation sample_config (Inr [''Plants release oxygen.''])
      (\<lambda>p i. if i = 0 then Parsed [sample_question\<lparr>answer := ''Ozone''\<rparr>]
              else Parsed [sample_question])
      (JStr ''Medium'') (JNum 1) = (Inr [sample_question], 2)"
    by (simp add: quiz_operation_def build_def valid_quiz_def valid_question_def
        sample_question_def sample_config_def eval_nat_numeral)
  have field: "quiz_field (sample_reply\<lparr>quiz_field := [sample_question]\<rparr>) = [sample_question]"
    by simp
  show ?thesis
    using quiz_answer_among_options [OF run field, of quiz_init] run by simp
qed

section \<open>The number of questions is validated before generation\<close>

lemma quiz_request_num_questions:
  "isDouble k \<Longrightarrow> \<bar>k\<bar> < 10 ^ 21 \<Longrightarrow>
     num_questions_of (quiz_request d (Num k)) = Some (JNum k)"
  by (simp add: num_questions_of_def quiz_request_def parseInt_toString del: toString.simps)

text \<open>A number that the component stores is a double.\<close>

lemma numQuestions_onChange_isDouble:
  "numQuestions (numQuestions_onChange s v) = Num k \<Longrightarrow> isDouble k"
proof (cases "truthy (parseInt v)")
  case True
  assume "numQuestions (numQuestions_onChange s v) = Num k"
  with True have "parseInt v = Num k"
    by (simp add: numQuestions_onChange_def js_or_def)
  then show ?thesis by (rule parseInt_isDouble)
next
  case False
  assume "numQuestions (numQuestions_onChange s v) = Num k"
  with False have "k = 5"
    by (simp add: numQuestions_onChange_def js_or_def)
  then show ?thesis by (simp add: isDouble_small)
qed

text \<open>
  From \<open>10^21\<close> on the stored number is not what is sent: its text has an exponent, of
  which \<open>parseInt\<close> reads the first digit only.
\<close>

lemma quiz_request_exponent:
  "num_questions_of (quiz_request d (Num (int plain_limit))) = Some (JNum 1)"
  by (simp add: num_questions_of_def quiz_request_def parseInt_exponent del: toString.simps)

lemma quiz_request_difficulty:
  "difficulty_of (quiz_request d n) = Some (JStr d)"
  by (simp add: difficulty_of_def quiz_request_def)

text \<open>
  Claim C2. The number of questions that the quiz tab stores is a double, at the start
  and after every change, and the tab sends it as it is as long as it is below \<open>10^21\<close>
  in absolute value, with no check of the range from 1 to 20. In the quiz operation a
  number below 1 or above 20 fails the validation of the PromptBuilder: the result is an
  error and the completion service has not been called. For a number from
  1 to 20, both included, and one of the three difficulties the prompt is built, and the
  operation returns a quiz of that many questions when the completion service gives a
  valid one within the bound on retries.
\<close>

theorem quiz_count_validated:
  "(numQuestions s = Num k \<and> isDouble k \<and> \<bar>k\<bar> < 10 ^ 21 \<longrightarrow>
      num_questions_of (fst (snd (handleGenerateQuiz s r))) = Some (JNum k))
   \<and> (numQuestions quiz_init = Num k \<or> numQuestions (numQuestions_onChange s v) = Num k
        \<longrightarrow> isDouble k)
   \<and> (k < 1 \<or> 20 < k \<longrightarrow> (\<exists>e. quiz_operation cfg retrieved svc d (JNum k) = (Inl e, 0)))
   \<and> (1 \<le> k \<and> k \<le> 20 \<and> x \<in> {''Easy'', ''Medium'', ''Hard''} \<and> retrieved = Inr cs
        \<and> j \<le> max_retries cfg
        \<and> svc \<lparr>task = QuizParams (JStr x) (JNum k), chunks = cs\<rparr> j = Parsed qs
        \<and> valid_quiz (option_count cfg) (nat k) qs
      \<longrightarrow> build cs (QuizParams (JStr x) (JNum k))
            = Inr \<lparr>task = QuizParams (JStr x) (JNum k), chunks = cs\<rparr>
        \<and> (\<exists>qs' c. quiz_operation cfg retrieved svc (JStr x) (JNum k) = (Inr qs', c)
              \<and> 0 < c \<and> length qs' = nat k))"
proof (intro conjI impI)
  assume "numQuestions s = Num k \<and> isDouble k \<and> \<bar>k\<bar> < 10 ^ 21"
  then show "num_questions_of (fst (snd (handleGenerateQuiz s r))) = Some (JNum k)"
    by (simp add: handleGenerateQuiz_request quiz_request_num_questions)
next
  assume "numQuestions quiz_init = Num k \<or> numQuestions (numQuestions_onChange s v) = Num k"
  then show "isDouble k"
    using numQuestions_onChange_isDouble [of s v k]
    by (auto simp: quiz_init_def isDouble_small)
next
  assume "k < 1 \<or> 20 < k"
  then have "\<not> validate_params (QuizParams d (JNum k))"
    by (cases d) auto
  then show "\<exists>e. quiz_operation cfg retrieved svc d (JNum k) = (Inl e, 0)"
    by (rule quiz_operation_rejects)
next
  assume h: "1 \<le> k \<and> k \<le> 20 \<and> x \<in> {''Easy'', ''Medium'', ''Hard''} \<and> retrieved = Inr cs
        \<and> j \<le> max_retries cfg
        \<and> svc \<lparr>task = QuizParams (JStr x) (JNum k), chunks = cs\<rparr> j = Parsed qs
        \<and> valid_quiz (option_count cfg) (nat k) qs"
  then have ok: "validate_params (QuizParams (JStr x) (JNum k))" by auto
  then show "build cs (QuizParams (JStr x) (JNum k))
            = Inr \<lparr>task = QuizParams (JStr x) (JNum k), chunks = cs\<rparr>"
    by (simp add: build_def)
next
  assume h: "1 \<le> k \<and> k \<le> 20 \<and> x \<in> {''Easy'', ''Medium'', ''Hard''} \<and> retrieved = Inr cs
        \<and> j \<le> max_retries cfg
        \<and> svc \<lparr>task = QuizParams (JStr x) (JNum k), chunks = cs\<rparr> j = Parsed qs
        \<and> valid_quiz (option_count cfg) (nat k) qs"
  let ?p = "\<lparr>task = QuizParams (JStr x) (JNum k), chunks = cs\<rparr>"
  from h have ok: "validate_params (QuizParams (JStr x) (JNum k))" by auto
  have op: "quiz_operation cfg retrieved svc (JStr x) (JNum k)
      = generate_quiz (option_count cfg) (nat k) (svc ?p) (Suc (max_retries cfg)) 0"
    using h ok by (simp add: quiz_operation_def build_def del: generate_quiz.simps)
  from h have "j < Suc (max_retries cfg)" and "svc ?p (0 + j) = Parsed qs" by simp_all
  with h obtain qs' c where
    g: "generate_quiz (option_count cfg) (nat k) (svc ?p) (Suc (max_retries cfg)) 0 = (Inr qs', c)"
    using generate_quiz_succeeds by blast
  then have "valid_quiz (option_count cfg) (nat k) qs'" by (rule generate_quiz_valid)
  moreover have "0 < c" using generate_quiz_calls [OF g] by simp
  ultimately show "\<exists>qs' c. quiz_operation cfg retrieved svc (JStr x) (JNum k) = (Inr qs', c)
              \<and> 0 < c \<and> length qs' = nat k"
    using op g by (simp add: valid_quiz_def)
qed

theorem quiz_count_validated_witness:
  "numQuestions (numQuestions_onChange (quiz_init\<lparr>numQuestions := Num 25\<rparr>) ''25'') = Num 25
   \<and> isDouble 25 \<and> \<bar>25::int\<bar> < 10 ^ 21
   \<and> num_questions_of (fst (snd (handleGenerateQuiz (quiz_init\<lparr>numQuestions := Num 25\<rparr>)
      NetworkFailure))) = Some (JNum 25)
   \<and> quiz_operation sample_config (Inr [''Plants release oxygen.''])
        (\<lambda>p i. Parsed [sample_question]) (JStr ''Medium'') (JNum 25)
      = (Inl MalformedInputError, 0)
   \<and> quiz_operation sample_config (Inr [''Plants release oxygen.''])
        (\<lambda>p i. Parsed [sample_question]) (JStr ''Medium'') (JNum 0)
      = (Inl MalformedInputError, 0)
   \<and> quiz_operation sample_config (Inr [''Plants release oxygen.''])
        (\<lambda>p i. Parsed [sample_question]) (JStr ''Medium'') (JNum 1)
      = (Inr [sample_question], 1)
   \<and> quiz_operation sample_config (Inr [''Plants release oxygen.''])
        (\<lambda>p i. Parsed (replicate 20 sample_question)) (JStr ''Hard'') (JNum 20)
      = (Inr (replicate 20 sample_question), 1)"
proof -
  have v1: "valid_quiz (option_count sample_config) (nat 1) [sample_question]"
    by (simp add: valid_quiz_def valid_question_def sample_question_def sample_config_def)
  have v20: "valid_quiz (option_count sample_config) (nat 20) (replicate 20 sample_question)"
    by (simp add: valid_quiz_def valid_question_def sample_question_def sample_config_def
        list_all_iff)
  note sent = quiz_count_validated [where s = "quiz_init\<lparr>numQuestions := Num 25\<rparr>"
      and k = 25 and r = NetworkFailure and cfg = sample_config
      and retrieved = "Inr [''Plants release oxygen.'']"
      and svc = "\<lambda>p i. Parsed [sample_question]" and d = "JStr ''Medium''"
      and v = "''25''"]
  note zero = quiz_count_validated [where s = "quiz_init\<lparr>numQuestions := Num 5\<rparr>"
      and k = 0 and r = NetworkFailure and cfg = sample_config
      and retrieved = "Inr [''Plants release oxygen.'']"
      and svc = "\<lambda>p i. Parsed [sample_question]" and d = "JStr ''Medium''"]
  note one = quiz_count_validated [where k = 1 and cfg = sample_config
      and retrieved = "Inr [''Plants release oxygen.'']"
      and svc = "\<lambda>p i. Parsed [sample_question]" and x = "''Medium''"
      and cs = "[''Plants release oxygen.'']" and j = 0 and qs = "[sample_question]"]
  note twenty = quiz_count_validated [where k = 20 and cfg = sample_config
      and retrieved = "Inr [''Plants release oxygen.'']"
      and svc = "\<lambda>p i. Parsed (replicate 20 sample_question)" and x = "''Hard''"
      and cs = "[''Plants release oxygen.'']" and j = 0
      and qs = "replicate 20 sample_question"]
  have st: "numQuestions (numQuestions_onChange (quiz_init\<lparr>numQuestions := Num 25\<rparr>) ''25'')
      = Num 25"
    by (simp add: numQuestions_onChange_def js_or_def parseInt_eval)
  have dbl: "isDouble 25"
    using sent st by simp
  have a: "num_questions_of (fst (snd (handleGenerateQuiz (quiz_init\<lparr>numQuestions := Num 25\<rparr>)
      NetworkFailure))) = Some (JNum 25)"
    using sent dbl by simp
  have b: "quiz_operation sample_config (Inr [''Plants release oxygen.''])
        (\<lambda>p i. Parsed [sample_question]) (JStr ''Medium'') (JNum 25)
      = (Inl MalformedInputError, 0)"
    using sent by (simp add: quiz_operation_def build_def)
  have c: "quiz_operation sample_config (Inr [''Plants release oxygen.''])
        (\<lambda>p i. Parsed [sample_question]) (JStr ''Medium'') (JNum 0)
      = (Inl MalformedInputError, 0)"
    using zero by (simp add: quiz_operation_def build_def)
  have d: "quiz_operation sample_config (Inr [''Plants release oxygen.''])
        (\<lambda>p i. Parsed [sample_question]) (JStr ''Medium'') (JNum 1)
      = (Inr [sample_question], 1)"
    using one v1 by (simp add: quiz_operation_def build_def)
  have e: "quiz_operation sample_config (Inr [''Plants release oxygen.''])
        (\<lambda>p i. Parsed (replicate 20 sample_question)) (JStr ''Hard'') (JNum 20)
      = (Inr (replicate 20 sample_question), 1)"
    using twenty v20 by (simp add: quiz_operation_def build_def)
  from st dbl a b c d e show ?thesis by simp
qed

section \<open>The number input\<close>

text \<open>
  Claim C8. After a change event of the number input the stored number of questions is
  neither 0 nor \<open>NaN\<close>: text that \<open>parseInt\<close> reads as 0, or cannot read, gives the
  default 5; any other integer, negative ones and those above 20 included, is stored as
  it was parsed.
\<close>

theorem numQuestions_coerced:
  "numQuestions (numQuestions_onChange s v) \<noteq> Num 0
   \<and> numQuestions (numQuestions_onChange s v) \<noteq> NaN
   \<and> (parseInt v = Num 0 \<or> parseInt v = NaN \<longrightarrow> numQuestions (numQuestions_onChange s v) = Num 5)
   \<and> (parseInt v = Num k \<and> k \<noteq> 0 \<longrightarrow> numQuestions (numQuestions_onChange s v) = Num k)"
  by (cases "parseInt v") (auto simp: numQuestions_onChange_def js_or_def)

theorem numQuestions_coerced_witness:
  "parseInt ''0'' = Num 0 \<and> numQuestions (numQuestions_onChange quiz_init ''0'') = Num 5
   \<and> parseInt [] = NaN \<and> numQuestions (numQuestions_onChange quiz_init []) = Num 5
   \<and> parseInt ''-3'' = Num (- 3) \<and> numQuestions (numQuestions_onChange quiz_init ''-3'') = Num (- 3)
   \<and> parseInt ''25'' = Num 25 \<and> numQuestions (numQuestions_onChange quiz_init ''25'') = Num 25"
proof -
  have p: "parseInt ''0'' = Num 0" "parseInt [] = NaN" "parseInt ''-3'' = Num (- 3)"
    "parseInt ''25'' = Num 25"
    by (simp_all add: parseInt_eval)
  show ?thesis
    using numQuestions_coerced [of quiz_init "''0''" 0] numQuestions_coerced [of quiz_init "[]" 0]
      numQuestions_coerced [of quiz_init "''-3''" "- 3"]
      numQuestions_coerced [of quiz_init "''25''" 25] p
    by simp
qed

section \<open>The summary request\<close>

lemma handleGenerateSummary_request:
  "snd (handleGenerateSummary s r) = summary_request"
  by (simp add: handleGenerateSummary_def handleGenerateSummary_begin_def)

lemma handleGenerateSummary_stores:
  "fst (handleGenerateSummary s (Response True (Some d)))
     = \<lparr>summary = summary_field d, isLoading_s = False, hasGenerated = True\<rparr>"
  by (simp add: handleGenerateSummary_def handleGenerateSummary_begin_def
      handleGenerateSummary_resolve_def)

text \<open>
  Claim C7. Every summary request is the same GET of \<open>/summary\<close>: it has no query string,
  no headers and no body, whatever the state of the tab. When the reply is a success, the
  \<open>summary\<close> field of its body becomes the \<open>summary\<close> state as it is, and a non-empty
  summary is the text that is drawn.
\<close>

theorem summary_takes_no_parameters:
  "snd (handleGenerateSummary s r) = summary_request
   \<and> rmethod summary_request = GET
   \<and> rbody summary_request = NoBody
   \<and> headers summary_request = []
   \<and> query_string (url summary_request) = None
   \<and> summary (fst (handleGenerateSummary s (Response True (Some d)))) = summary_field d
   \<and> (summary_field d \<noteq> [] \<longrightarrow>
        summary_render (fst (handleGenerateSummary s (Response True (Some d))))
          = SummaryText (summary_field d))"
  by (simp add: handleGenerateSummary_request handleGenerateSummary_stores summary_request_def
      query_string_def summary_render_def)

theorem summary_takes_no_parameters_witness:
  "summary_field (sample_reply\<lparr>summary_field := ''Plants turn light into sugar.''\<rparr>) \<noteq> []
   \<and> summary_render (fst (handleGenerateSummary summary_init
        (Response True (Some (sample_reply\<lparr>summary_field := ''Plants turn light into sugar.''\<rparr>)))))
      = SummaryText ''Plants turn light into sugar.''
   \<and> snd (handleGenerateSummary summary_init NetworkFailure) = summary_request"
  using summary_takes_no_parameters [of summary_init NetworkFailure
      "sample_reply\<lparr>summary_field := ''Plants turn light into sugar.''\<rparr>"]
  by simp

section \<open>One upload\<close>

lemma handleUpload_selected:
  "selectedFile u = Some f \<Longrightarrow>
     handleUpload u r =
       (fst (handleUpload_resolve (u\<lparr>isUploading := True, statusMessage := [], isError := False\<rparr>) r),
        Some (upload_request f),
        snd (handleUpload_resolve (u\<lparr>isUploading := True, statusMessage := [], isError := False\<rparr>) r))"
  by (simp add: handleUpload_def handleUpload_begin_def split: prod.splits)

lemma str_or_nonempty: "b \<noteq> [] \<Longrightarrow> str_or a b \<noteq> []"
  by (simp add: str_or_def split: option.splits)

lemma handleUpload_resolve_status:
  "statusMessage (fst (handleUpload_resolve u r)) \<noteq> []
   \<and> \<not> isUploading (fst (handleUpload_resolve u r))
   \<and> selectedFile (fst (handleUpload_resolve u r)) = selectedFile u"
  by (cases r rule: is_failure.cases)
     (simp_all add: handleUpload_resolve_def str_or_nonempty)

lemma handleUpload_resolve_timeouts:
  "snd (handleUpload_resolve u r) = (if is_failure r then [] else [OnUploadSuccess 1000])"
  by (cases r rule: is_failure.cases) (simp_all add: handleUpload_resolve_def)

lemma handleUpload_resolve_isError:
  "isError (fst (handleUpload_resolve u r)) = (is_failure r \<or> isError u)"
  by (cases r rule: is_failure.cases) (simp_all add: handleUpload_resolve_def)

text \<open>
  Claim C5. An invocation of the upload with a file selected sends one request, whose
  body holds that one file. When it has completed, the status message is not empty, both
  after a success and after a failure, and it is marked as an error exactly after a
  failure. The callback that moves the page to the dashboard is scheduled exactly after
  a success: from a page that shows the upload view with nothing pending, the click, the
  reply and the next timeout end in the dashboard after a success and in the upload view
  after a failure.
\<close>

theorem upload_one_document_with_status:
  assumes "selectedFile u = Some f"
    and "appState s = Upload" and "uploadView s = u" and "\<not> isUploading u"
    and "awaited s = 0" and "timeouts s = []"
  shows "fst (snd (handleUpload u r)) = Some (upload_request f)
    \<and> files_of (upload_request f) = [f]
    \<and> statusMessage (fst (handleUpload u r)) \<noteq> []
    \<and> isError (fst (handleUpload u r)) = is_failure r
    \<and> snd (snd (handleUpload u r)) = (if is_failure r then [] else [OnUploadSuccess 1000])
    \<and> uploadView (run s [ClickUpload, UploadSettles r]) = fst (handleUpload u r)
    \<and> sent (run s [ClickUpload, UploadSettles r]) = sent s @ [upload_request f]
    \<and> appState (run s [ClickUpload, UploadSettles r]) = Upload
    \<and> appState (run s [ClickUpload, UploadSettles r, TimeoutFires])
        = (if is_failure r then Upload else Dashboard)"
proof -
  let ?u1 = "u\<lparr>isUploading := True, statusMessage := [], isError := False\<rparr>"
  have h: "handleUpload u r
      = (fst (handleUpload_resolve ?u1 r), Some (upload_request f), snd (handleUpload_resolve ?u1 r))"
    using assms(1) by (rule handleUpload_selected)
  have click: "step s ClickUpload
      = s\<lparr>uploadView := ?u1, awaited := Suc 0, sent := sent s @ [upload_request f]\<rparr>"
    using assms by (simp add: upload_disabled_def handleUpload_begin_def)
  have "run s [ClickUpload, UploadSettles r] = step (step s ClickUpload) (UploadSettles r)"
    by (simp add: run_def)
  also have "\<dots> = step (s\<lparr>uploadView := ?u1, awaited := Suc 0,
      sent := sent s @ [upload_request f]\<rparr>) (UploadSettles r)"
    by (simp only: click)
  also have "\<dots> = s\<lparr>uploadView := fst (handleUpload_resolve ?u1 r), awaited := 0,
          sent := sent s @ [upload_request f],
          timeouts := snd (handleUpload_resolve ?u1 r)\<rparr>"
    using assms by (simp split: prod.splits)
  finally have settle: "run s [ClickUpload, UploadSettles r]
      = s\<lparr>uploadView := fst (handleUpload_resolve ?u1 r), awaited := 0,
          sent := sent s @ [upload_request f],
          timeouts := snd (handleUpload_resolve ?u1 r)\<rparr>" .
  have fire: "run s [ClickUpload, UploadSettles r, TimeoutFires]
      = step (run s [ClickUpload, UploadSettles r]) TimeoutFires"
    unfolding run_def by (simp del: step.simps)
  show ?thesis
    using assms(2)
    by (simp add: h settle fire handleUpload_resolve_status handleUpload_resolve_timeouts
        handleUpload_resolve_isError files_of_def upload_request_def handleUploadSuccess_def)
qed

theorem upload_one_document_with_status_witness:
  "selectedFile (uploadView sample_page) = Some sample_pdf
   \<and> appState sample_page = Upload \<and> \<not> isUploading (uploadView sample_page)
   \<and> awaited sample_page = 0 \<and> timeouts sample_page = []
   \<and> statusMessage (fst (handleUpload (uploadView sample_page) (Response True (Some sample_reply))))
        = ''PDF uploaded and processed successfully!''
   \<and> appState (run sample_page
        [ClickUpload, UploadSettles (Response True (Some sample_reply)), TimeoutFires]) = Dashboard
   \<and> statusMessage (fst (handleUpload (uploadView sample_page) (Response False (Some sample_reply))))
        = ''Upload failed. Please try again.''
   \<and> appState (run sample_page
        [ClickUpload, UploadSettles (Response False (Some sample_reply)), TimeoutFires]) = Upload"
proof -
  have pre: "selectedFile (uploadView sample_page) = Some sample_pdf"
    "appState sample_page = Upload" "uploadView sample_page = uploadView sample_page"
    "\<not> isUploading (uploadView sample_page)" "awaited sample_page = 0"
    "timeouts sample_page = []"
    by (simp_all add: sample_page_def app_init_def upload_init_def)
  have ok: "statusMessage (fst (handleUpload (uploadView sample_page)
        (Response True (Some sample_reply)))) = ''PDF uploaded and processed successfully!''"
    by (simp add: handleUpload_selected [OF pre(1)] handleUpload_resolve_def)
  have ko: "statusMessage (fst (handleUpload (uploadView sample_page)
        (Response False (Some sample_reply)))) = ''Upload failed. Please try again.''"
    by (simp add: handleUpload_selected [OF pre(1)] handleUpload_resolve_def str_or_def
        sample_reply_def)
  show ?thesis
    using upload_one_document_with_status [OF pre, of "Response True (Some sample_reply)"]
      upload_one_document_with_status [OF pre, of "Response False (Some sample_reply)"]
      pre ok ko
    by simp
qed

section \<open>Events of the page\<close>

lemma reachable_run: "reachable s \<Longrightarrow> reachable (run s es)"
proof (induction es arbitrary: s)
  case Nil
  then show ?case by (simp add: run_def)
next
  case (Cons e es)
  from Cons.prems have "reachable (step s e)" by (rule reachable.after)
  then have "reachable (run (step s e) es)" by (rule Cons.IH)
  then show ?case by (simp add: run_def)
qed

lemma run_Cons: "run s (e # es) = run (step s e) es"
  by (simp add: run_def)

lemma run_Nil: "run s [] = s"
  by (simp add: run_def)

lemma opt_list_mem: "q \<in> set (opt_list x) \<longleftrightarrow> x = Some q"
  by (cases x) auto

text \<open>The requests that an event inside a tab can send.\<close>

lemma tab_step_sent:
  "q \<in> set (fst (snd (tab_step c e))) \<Longrightarrow>
     q = summary_request
     \<or> (\<exists>t. c = ExplainMounted t \<and> q = explain_request (conceptQuery t))
     \<or> (\<exists>t. c = QuizMounted t \<and> q = quiz_request (quizDifficulty t) (numQuestions t))"
proof (induction c e rule: tab_step.induct)
  case (1 t r)
  then show ?case
    using handleGenerateSummary_request [of t r]
    by (auto simp: summary_click_def opt_list_mem split: if_splits prod.splits)
next
  case (3 t r)
  then show ?case
    using handleExplain_sent [of t r q]
    by (auto simp: explain_click_def opt_list_mem split: if_splits prod.splits)
next
  case (4 t k sh r)
  then show ?case
    using handleExplain_sent [of t r q]
    by (auto simp: handleKeyPress_def opt_list_mem split: if_splits prod.splits)
next
  case (7 t r)
  then show ?case
    using handleGenerateQuiz_request [of t r]
    by (auto simp: quiz_click_def opt_list_mem split: if_splits prod.splits)
qed (simp_all split: if_splits)

lemma tab_request_urls:
  "url summary_request \<noteq> ''http://localhost:5000/upload''"
  "url (explain_request x) \<noteq> ''http://localhost:5000/upload''"
  "url (quiz_request d n) \<noteq> ''http://localhost:5000/upload''"
  by (simp_all add: summary_request_def explain_request_def quiz_request_def)

lemma tab_request_files:
  "files_of summary_request = []" "files_of (explain_request x) = []"
  "files_of (quiz_request d n) = []"
  by (simp_all add: files_of_def summary_request_def explain_request_def quiz_request_def)

lemma other_request_difficulty:
  "difficulty_of summary_request = None" "difficulty_of (explain_request x) = None"
  "difficulty_of (upload_request f) = None"
  by (simp_all add: difficulty_of_def summary_request_def explain_request_def upload_request_def)

lemma reachable_sample_page: "reachable sample_page"
proof -
  have eq: "step app_init (PickFiles (Some [sample_pdf])) = sample_page"
    by (simp add: sample_page_def app_init_def handleFileInputChange_def handleFileSelect_def
        sample_pdf_def upload_init_def)
  have "reachable (step app_init (PickFiles (Some [sample_pdf])))"
    by (rule reachable.after [OF reachable.start])
  then show ?thesis by (simp only: eq)
qed

text \<open>Unfolding the sample sessions.\<close>

lemmas page_eval = run_def sample_page_def app_init_def upload_init_def dashboard_init_def
  mount_def setActiveTab_def upload_disabled_def handleUpload_begin_def
  handleUpload_resolve_def handleUploadSuccess_def handleFileInputChange_def
  handleFileSelect_def handleDrop_def sample_pdf_def sample_reply_def second_pdf_def
  upload_succeeds_def second_upload_def

section \<open>What a failure shows\<close>

lemma handleGenerateSummary_resolve_failure:
  "is_failure r \<Longrightarrow>
     handleGenerateSummary_resolve s r =
       s\<lparr>summary := (if body_parsed r then ''Error generating summary. Please try again.''
                      else ''Network error. Please check if the server is running.''),
         isLoading_s := False\<rparr>"
  by (cases r rule: is_failure.cases) (simp_all add: handleGenerateSummary_resolve_def)

lemma handleExplain_resolve_failure:
  "is_failure r \<Longrightarrow>
     handleExplain_resolve s r =
       s\<lparr>explanation := (if body_parsed r then ''Error generating explanation. Please try again.''
                          else ''Network error. Please check if the server is running.''),
         isLoading_e := False\<rparr>"
  by (cases r rule: is_failure.cases) (simp_all add: handleExplain_resolve_def)

lemma handleUpload_resolve_failure:
  "is_failure r \<Longrightarrow>
     handleUpload_resolve s r =
       (s\<lparr>statusMessage := (if has_body r
                             then str_or (reply_error r) ''Upload failed. Please try again.''
                             else ''Network error. Please check if the server is running.''),
          isError := True, isUploading := False\<rparr>, [])"
  by (cases r rule: is_failure.cases) (simp_all add: handleUpload_resolve_def)

lemma handleGenerateQuiz_failure:
  "is_failure r \<Longrightarrow>
     fst (handleGenerateQuiz s r) = s\<lparr>quiz := [], visibleAnswers := {}, isLoading_q := False\<rparr>
     \<and> snd (snd (handleGenerateQuiz s r)) =
         [if has_body r then ConsoleError ''Error generating quiz:'' (reply_error r)
          else ConsoleError ''Network error:'' None]"
  by (cases r rule: is_failure.cases)
     (simp_all add: handleGenerateQuiz_def handleGenerateQuiz_begin_def
        handleGenerateQuiz_resolve_def)

lemma handleGenerateSummary_parts:
  "fst (handleGenerateSummary s r)
     = handleGenerateSummary_resolve (fst (handleGenerateSummary_begin s)) r"
  by (simp add: handleGenerateSummary_def split: prod.splits)

lemma handleExplain_parts:
  "trim (conceptQuery s) \<noteq> [] \<Longrightarrow>
     fst (handleExplain s r) = handleExplain_resolve (fst (handleExplain_begin s)) r"
  by (simp add: handleExplain_def handleExplain_begin_def)

lemma handleUpload_parts:
  "selectedFile s = Some f \<Longrightarrow>
     fst (handleUpload s r) = fst (handleUpload_resolve (fst (handleUpload_begin s)) r)
     \<and> snd (snd (handleUpload s r)) = snd (handleUpload_resolve (fst (handleUpload_begin s)) r)"
  by (simp add: handleUpload_def handleUpload_begin_def split: prod.splits)

text \<open>
  Claim C3, as the components have it. When the reply to a summary, explain or upload
  request settles as a failure on a component that is still mounted, whatever state the
  component is in by then, the component is left idle and shows a message that is not
  empty, in place of any result. So does the operation as a whole, from the click to the
  reply, and so does the page while it shows the upload view. Summary and explain show
  one of two fixed texts: the one about generating when the reply has an error status
  and a body that parses, whatever error the server names, and the one about the network
  otherwise. The upload shows the error text of the server when the body has one, a
  fixed text when the body is an object without one, and the text about the network
  otherwise; it marks the message as an error and sets no timeout.
\<close>

theorem failure_shows_message:
  assumes "is_failure r"
  shows "summary_render (handleGenerateSummary_resolve s r)
      = SummaryText (if body_parsed r then ''Error generating summary. Please try again.''
                     else ''Network error. Please check if the server is running.'')
    \<and> hasGenerated (handleGenerateSummary_resolve s r) = hasGenerated s
    \<and> fst (handleGenerateSummary s r)
      = handleGenerateSummary_resolve (fst (handleGenerateSummary_begin s)) r
    \<and> explain_render (handleExplain_resolve e r)
      = ExplainText (if body_parsed r then ''Error generating explanation. Please try again.''
                     else ''Network error. Please check if the server is running.'')
    \<and> (trim (conceptQuery e) \<noteq> [] \<longrightarrow>
         fst (handleExplain e r) = handleExplain_resolve (fst (handleExplain_begin e)) r)
    \<and> status_render (fst (handleUpload_resolve u r))
      = ErrorStatus (if has_body r
                     then str_or (reply_error r) ''Upload failed. Please try again.''
                     else ''Network error. Please check if the server is running.'')
    \<and> statusMessage (fst (handleUpload_resolve u r)) \<noteq> []
    \<and> \<not> isUploading (fst (handleUpload_resolve u r))
    \<and> snd (handleUpload_resolve u r) = []
    \<and> (selectedFile u = Some f \<longrightarrow>
         fst (handleUpload u r) = fst (handleUpload_resolve (fst (handleUpload_begin u)) r)
         \<and> snd (snd (handleUpload u r)) = [])
    \<and> (appState p = Upload \<and> 0 < awaited p \<longrightarrow>
         uploadView (step p (UploadSettles r)) = fst (handleUpload_resolve (uploadView p) r)
         \<and> appState (step p (UploadSettles r)) = Upload
         \<and> timeouts (step p (UploadSettles r)) = timeouts p)"
proof -
  have parts: "selectedFile u = Some f \<longrightarrow>
      fst (handleUpload u r) = fst (handleUpload_resolve (fst (handleUpload_begin u)) r)
      \<and> snd (snd (handleUpload u r)) = []"
    using handleUpload_parts [of u f r] assms by (simp add: handleUpload_resolve_failure)
  show ?thesis
    using assms parts
    by (simp add: handleGenerateSummary_resolve_failure handleExplain_resolve_failure
        handleUpload_resolve_failure handleGenerateSummary_parts handleExplain_parts
        summary_render_def explain_render_def status_render_def str_or_nonempty)
qed

theorem failure_shows_message_witness:
  "is_failure (Response False (Some no_document_reply))
   \<and> summary_render (fst (handleGenerateSummary summary_init
        (Response False (Some no_document_reply))))
       = SummaryText ''Error generating summary. Please try again.''
   \<and> trim (conceptQuery (explain_init\<lparr>conceptQuery := ''What is a chloroplast?''\<rparr>)) \<noteq> []
   \<and> explain_render (fst (handleExplain (explain_init\<lparr>conceptQuery := ''What is a chloroplast?''\<rparr>)
        (Response False (Some no_document_reply))))
       = ExplainText ''Error generating explanation. Please try again.''
   \<and> selectedFile (uploadView sample_page) = Some sample_pdf
   \<and> status_render (fst (handleUpload (uploadView sample_page)
        (Response False (Some no_document_reply))))
       = ErrorStatus ''No document loaded''
   \<and> appState (step sample_page ClickUpload) = Upload
   \<and> 0 < awaited (step sample_page ClickUpload)
   \<and> status_render (uploadView (step (step sample_page ClickUpload)
        (UploadSettles (Response False (Some no_document_reply)))))
       = ErrorStatus ''No document loaded''"
proof -
  have f: "is_failure (Response False (Some no_document_reply))" by simp
  have q: "trim (conceptQuery (explain_init\<lparr>conceptQuery := ''What is a chloroplast?''\<rparr>)) \<noteq> []"
    by (simp add: trim_def isWhiteSpace_def)
  have p: "selectedFile (uploadView sample_page) = Some sample_pdf"
    by (simp add: sample_page_def)
  have a: "appState (step sample_page ClickUpload) = Upload"
    "0 < awaited (step sample_page ClickUpload)"
    by (simp_all add: sample_page_def app_init_def upload_init_def upload_disabled_def
        handleUpload_begin_def)
  have m: "str_or (reply_error (Response False (Some no_document_reply)))
      ''Upload failed. Please try again.'' = ''No document loaded''"
    by (simp add: str_or_def no_document_reply_def)
  note at_summary = failure_shows_message [OF f,
      where s = "fst (handleGenerateSummary_begin summary_init)"]
  note at_handlers = failure_shows_message [OF f, where s = summary_init
      and e = "explain_init\<lparr>conceptQuery := ''What is a chloroplast?''\<rparr>"
      and u = "uploadView sample_page" and f = sample_pdf and p = sample_page]
  note at_explain = failure_shows_message [OF f, where
      e = "fst (handleExplain_begin (explain_init\<lparr>conceptQuery := ''What is a chloroplast?''\<rparr>))"]
  note at_upload = failure_shows_message [OF f, where
      u = "fst (handleUpload_begin (uploadView sample_page))"]
  note at_page = failure_shows_message [OF f, where
      u = "uploadView (step sample_page ClickUpload)" and p = "step sample_page ClickUpload"]
  have s1: "summary_render (handleGenerateSummary_resolve (fst (handleGenerateSummary_begin
      summary_init)) (Response False (Some no_document_reply)))
       = SummaryText ''Error generating summary. Please try again.''"
    using at_summary by simp
  have s2: "fst (handleGenerateSummary summary_init (Response False (Some no_document_reply)))
      = handleGenerateSummary_resolve (fst (handleGenerateSummary_begin summary_init))
          (Response False (Some no_document_reply))"
    using at_handlers by simp
  have e1: "explain_render (handleExplain_resolve
      (fst (handleExplain_begin (explain_init\<lparr>conceptQuery := ''What is a chloroplast?''\<rparr>)))
      (Response False (Some no_document_reply)))
       = ExplainText ''Error generating explanation. Please try again.''"
    using at_explain by simp
  have e2: "fst (handleExplain (explain_init\<lparr>conceptQuery := ''What is a chloroplast?''\<rparr>)
        (Response False (Some no_document_reply)))
      = handleExplain_resolve
          (fst (handleExplain_begin (explain_init\<lparr>conceptQuery := ''What is a chloroplast?''\<rparr>)))
          (Response False (Some no_document_reply))"
    using at_handlers q by simp
  have u1: "status_render (fst (handleUpload_resolve (fst (handleUpload_begin (uploadView sample_page)))
      (Response False (Some no_document_reply)))) = ErrorStatus ''No document loaded''"
    using at_upload m by simp
  have u2: "fst (handleUpload (uploadView sample_page) (Response False (Some no_document_reply)))
      = fst (handleUpload_resolve (fst (handleUpload_begin (uploadView sample_page)))
          (Response False (Some no_document_reply)))"
    using at_handlers p by simp
  have g: "status_render (uploadView (step (step sample_page ClickUpload)
        (UploadSettles (Response False (Some no_document_reply)))))
       = ErrorStatus ''No document loaded''"
    using at_page a m by (simp del: step.simps)
  show ?thesis
    using f q p a g by (simp only: s2 s1 e2 e1 u2 u1) simp
qed

text \<open>
  The claim as it is written fails in three ways. A reply with an error status draws the
  same text in the explanation and in the summary whichever error the server names, so
  the kinds of failure are not told apart. After a failed quiz request the quiz tab draws
  what it drew before any request: the error went to the console only. And when the
  reply to an upload fails after the page has moved to the dashboard, nothing at all is
  shown or logged: the dashboard and the console are as they were before the reply.
\<close>

theorem failure_kind_counterexample:
  "is_failure (Response False (Some no_document_reply))
   \<and> is_failure (Response False (Some service_down_reply))
   \<and> error_field no_document_reply \<noteq> error_field service_down_reply
   \<and> explain_render (fst (handleExplain (explain_init\<lparr>conceptQuery := ''What is a chloroplast?''\<rparr>)
        (Response False (Some no_document_reply))))
     = explain_render (fst (handleExplain (explain_init\<lparr>conceptQuery := ''What is a chloroplast?''\<rparr>)
        (Response False (Some service_down_reply))))
   \<and> summary_render (fst (handleGenerateSummary summary_init
        (Response False (Some no_document_reply))))
     = summary_render (fst (handleGenerateSummary summary_init
        (Response False (Some service_down_reply))))
   \<and> quiz_render (fst (handleGenerateQuiz quiz_init (Response False (Some no_document_reply))))
     = quiz_render quiz_init
   \<and> quiz_render quiz_init = QuizPlaceholder
   \<and> is_failure NetworkFailure
   \<and> appState (run sample_page late_reply) = Dashboard
   \<and> awaited (run sample_page late_reply) = 1
   \<and> appState (step (run sample_page late_reply) (UploadSettles NetworkFailure)) = Dashboard
   \<and> dashboardView (step (run sample_page late_reply) (UploadSettles NetworkFailure))
     = dashboardView (run sample_page late_reply)
   \<and> console (step (run sample_page late_reply) (UploadSettles NetworkFailure)) = []"
  by (simp add: handleExplain_def handleExplain_begin_def handleExplain_resolve_def
      handleGenerateSummary_def handleGenerateSummary_begin_def handleGenerateSummary_resolve_def
      handleGenerateQuiz_def handleGenerateQuiz_begin_def handleGenerateQuiz_resolve_def
      explain_render_def summary_render_def quiz_render_def quiz_init_def explain_init_def
      summary_init_def no_document_reply_def service_down_reply_def
      trim_def isWhiteSpace_def page_eval late_reply_def)

section \<open>Only PDF files are selected and uploaded\<close>

lemma handleFileSelect_pdf:
  "selectedFile (handleFileSelect u f) = Some g \<Longrightarrow>
     selectedFile u = Some g \<or> ftype g = ''application/pdf''"
  by (auto simp: handleFileSelect_def split: if_splits)

lemma handleDrop_pdf:
  "selectedFile (handleDrop u fs) = Some g \<Longrightarrow>
     selectedFile u = Some g \<or> ftype g = ''application/pdf''"
  by (cases fs) (auto simp: handleDrop_def Let_def dest: handleFileSelect_pdf)

lemma handleFileInputChange_pdf:
  "selectedFile (handleFileInputChange u fs) = Some g \<Longrightarrow>
     selectedFile u = Some g \<or> ftype g = ''application/pdf''"
  by (auto simp: handleFileInputChange_def split: option.splits list.splits
      dest: handleFileSelect_pdf)

lemma pdf_only_step: "pdf_only s \<Longrightarrow> pdf_only (step s e)"
proof (cases e)
  case (Drop fs)
  assume "pdf_only s"
  with Drop show ?thesis
    by (auto simp: pdf_only_def dest: handleDrop_pdf)
next
  case DragOver
  assume "pdf_only s"
  with DragOver show ?thesis by (auto simp: pdf_only_def handleDragOver_def)
next
  case DragLeave
  assume "pdf_only s"
  with DragLeave show ?thesis by (auto simp: pdf_only_def handleDragLeave_def)
next
  case (PickFiles fs)
  assume "pdf_only s"
  with PickFiles show ?thesis
    by (auto simp: pdf_only_def dest: handleFileInputChange_pdf)
next
  case ClickUpload
  assume "pdf_only s"
  with ClickUpload show ?thesis
    by (auto simp: pdf_only_def handleUpload_begin_def files_of_def upload_request_def
        split: option.splits)
next
  case (UploadSettles r)
  assume "pdf_only s"
  with UploadSettles show ?thesis
    using handleUpload_resolve_status [of "uploadView s" r]
    by (auto simp: pdf_only_def split: prod.splits)
next
  case TimeoutFires
  assume "pdf_only s"
  with TimeoutFires show ?thesis
    by (auto simp: pdf_only_def handleUploadSuccess_def split: list.splits timeout.splits)
next
  case (ClickTab b)
  assume "pdf_only s"
  with ClickTab show ?thesis by (auto simp: pdf_only_def)
next
  case (InTab te)
  assume inv: "pdf_only s"
  have "files_of q = []" if "q \<in> set (fst (snd (tab_step (content (dashboardView s)) te)))" for q
    using tab_step_sent [OF that] by (auto simp: tab_request_files)
  with inv InTab show ?thesis
    by (auto simp: pdf_only_def split: prod.splits)
qed

lemma reachable_pdf_only: "reachable s \<Longrightarrow> pdf_only s"
proof (induction rule: reachable.induct)
  case start
  show ?case by (simp add: pdf_only_def app_init_def upload_init_def)
next
  case (after s e)
  then show ?case by (simp add: pdf_only_step)
qed

text \<open>
  Claim C9. A file whose type is not \<open>application/pdf\<close>, dropped or picked as the first
  file, leaves the selected file as it was and sets the error status
  \<open>Please select a PDF file only.\<close> In every state the page can reach, the selected file,
  if there is one, is a PDF, and so is every file of every request that has been sent.
\<close>

theorem non_pdf_never_selected:
  assumes "ftype f \<noteq> ''application/pdf''"
  shows "handleDrop u (f # fs)
      = u\<lparr>dragOver := False, statusMessage := ''Please select a PDF file only.'', isError := True\<rparr>
    \<and> handleFileInputChange u (Some (f # fs))
      = u\<lparr>statusMessage := ''Please select a PDF file only.'', isError := True\<rparr>
    \<and> selectedFile (handleDrop u (f # fs)) = selectedFile u
    \<and> selectedFile (handleFileInputChange u (Some (f # fs))) = selectedFile u
    \<and> (reachable s \<longrightarrow>
         selectedFile (uploadView s) \<noteq> Some f
         \<and> (\<forall>q \<in> set (sent s). f \<notin> set (files_of q)))"
proof -
  have "selectedFile (uploadView s) \<noteq> Some f \<and> (\<forall>q \<in> set (sent s). f \<notin> set (files_of q))"
    if "reachable s"
    using reachable_pdf_only [OF that] assms by (auto simp: pdf_only_def)
  then show ?thesis
    using assms by (simp add: handleDrop_def handleFileInputChange_def handleFileSelect_def)
qed

theorem non_pdf_never_selected_witness:
  "ftype sample_image \<noteq> ''application/pdf''
   \<and> reachable (run sample_page [Drop [sample_image, sample_pdf], ClickUpload])
   \<and> status_render (uploadView (run sample_page [Drop [sample_image, sample_pdf]]))
       = ErrorStatus ''Please select a PDF file only.''
   \<and> selectedFile (uploadView (run sample_page [Drop [sample_image, sample_pdf]])) = Some sample_pdf
   \<and> map files_of (sent (run sample_page [Drop [sample_image, sample_pdf], ClickUpload]))
       = [[sample_pdf]]"
proof -
  have t: "ftype sample_image \<noteq> ''application/pdf''"
    by (simp add: sample_image_def)
  have "reachable sample_page" by (rule reachable_sample_page)
  then have r: "reachable (run sample_page [Drop [sample_image, sample_pdf], ClickUpload])"
    by (rule reachable_run)
  have d: "uploadView (run sample_page [Drop [sample_image, sample_pdf]])
      = (uploadView sample_page)
          \<lparr>dragOver := False, statusMessage := ''Please select a PDF file only.'', isError := True\<rparr>"
    using non_pdf_never_selected [OF t, of "uploadView sample_page" "[sample_pdf]"]
    by (simp add: run_def sample_page_def app_init_def)
  have u: "run sample_page [Drop [sample_image, sample_pdf], ClickUpload]
      = step (run sample_page [Drop [sample_image, sample_pdf]]) ClickUpload"
    unfolding run_def by (simp del: step.simps)
  have a: "appState (run sample_page [Drop [sample_image, sample_pdf]]) = Upload"
    "sent (run sample_page [Drop [sample_image, sample_pdf]]) = []"
    by (simp_all add: run_def sample_page_def app_init_def)
  have v: "selectedFile (uploadView (run sample_page [Drop [sample_image, sample_pdf]]))
      = Some sample_pdf"
    "\<not> isUploading (uploadView (run sample_page [Drop [sample_image, sample_pdf]]))"
    "status_render (uploadView (run sample_page [Drop [sample_image, sample_pdf]]))
       = ErrorStatus ''Please select a PDF file only.''"
    unfolding d by (simp_all add: sample_page_def upload_init_def status_render_def)
  have s: "map files_of (sent (run sample_page [Drop [sample_image, sample_pdf], ClickUpload]))
       = [[sample_pdf]]"
    unfolding u
    by (simp add: a v upload_disabled_def handleUpload_begin_def files_of_def upload_request_def)
  show ?thesis
    using t r v s by simp
qed

section \<open>The difficulty of a quiz request\<close>

lemma option_value_one_of_three: "option_value opt \<in> {''Easy'', ''Medium'', ''Hard''}"
  by (cases opt) simp_all

lemma mount_quiz: "mount a = QuizMounted t \<Longrightarrow> t = quiz_init"
  by (simp add: mount_def split: if_splits)

lemma quiz_click_difficulty: "quizDifficulty (fst (quiz_click t r)) = quizDifficulty t"
  by (cases r rule: is_failure.cases)
     (simp_all add: quiz_click_def handleGenerateQuiz_def handleGenerateQuiz_begin_def
        handleGenerateQuiz_resolve_def)

lemma tab_step_difficulty:
  "fst (tab_step c e) = QuizMounted t' \<Longrightarrow>
     \<exists>t. c = QuizMounted t
       \<and> (quizDifficulty t' = quizDifficulty t \<or> (\<exists>opt. quizDifficulty t' = option_value opt))"
proof (induction c e rule: tab_step.induct)
  case (5 t d)
  then show ?case
    by (auto simp: difficulty_onChange_def setQuizDifficulty_def)
next
  case (6 t v)
  then show ?case
    by (auto simp: numQuestions_onChange_def)
next
  case (7 t r)
  then show ?case
    using quiz_click_difficulty [of t r] by (auto split: prod.splits)
next
  case (8 t i)
  then show ?case
    by (auto simp: toggleAnswer_def split: if_splits)
qed (auto split: prod.splits)

lemma difficulty_ok_step: "difficulty_ok s \<Longrightarrow> difficulty_ok (step s e)"
proof (cases e)
  case ClickUpload
  assume "difficulty_ok s"
  with ClickUpload show ?thesis
    by (auto simp: difficulty_ok_def handleUpload_begin_def other_request_difficulty
        split: option.splits)
next
  case (UploadSettles r)
  assume "difficulty_ok s"
  with UploadSettles show ?thesis
    by (auto simp: difficulty_ok_def split: prod.splits)
next
  case TimeoutFires
  assume "difficulty_ok s"
  with TimeoutFires show ?thesis
    by (auto simp: difficulty_ok_def handleUploadSuccess_def split: list.splits timeout.splits)
next
  case (ClickTab b)
  assume "difficulty_ok s"
  with ClickTab show ?thesis
    by (auto simp: difficulty_ok_def setActiveTab_def quiz_init_def
        dest!: mount_quiz split: if_splits)
next
  case (InTab te)
  assume inv: "difficulty_ok s"
  let ?c = "content (dashboardView s)"
  have kept: "quizDifficulty t' \<in> {''Easy'', ''Medium'', ''Hard''}"
    if "fst (tab_step ?c te) = QuizMounted t'" for t'
  proof -
    from tab_step_difficulty [OF that] obtain t where
      t: "?c = QuizMounted t"
        "quizDifficulty t' = quizDifficulty t \<or> (\<exists>opt. quizDifficulty t' = option_value opt)"
      by blast
    from inv t(1) have old: "quizDifficulty t \<in> {''Easy'', ''Medium'', ''Hard''}"
      by (simp add: difficulty_ok_def)
    from t(2) show ?thesis
    proof
      assume "quizDifficulty t' = quizDifficulty t"
      with old show ?thesis by simp
    next
      assume "\<exists>opt. quizDifficulty t' = option_value opt"
      then obtain opt where "quizDifficulty t' = option_value opt" ..
      then show ?thesis using option_value_one_of_three [of opt] by simp
    qed
  qed
  have new: "d \<in> {JStr ''Easy'', JStr ''Medium'', JStr ''Hard''}"
    if "q \<in> set (fst (snd (tab_step ?c te)))" and "difficulty_of q = Some d" for q d
  proof -
    from tab_step_sent [OF that(1)] that(2) obtain t where
      t: "?c = QuizMounted t" "q = quiz_request (quizDifficulty t) (numQuestions t)"
      by (auto simp: other_request_difficulty)
    from inv t(1) have "quizDifficulty t \<in> {''Easy'', ''Medium'', ''Hard''}"
      by (simp add: difficulty_ok_def)
    with t(2) that(2) show ?thesis
      by (auto simp: quiz_request_difficulty)
  qed
  show ?thesis
  proof (cases "appState s = Dashboard")
    case False
    with inv InTab show ?thesis by simp
  next
    case True
    obtain c' qs lg where ts: "tab_step ?c te = (c', qs, lg)"
      by (cases "tab_step ?c te") auto
    with True InTab have after: "step s e =
        s\<lparr>dashboardView := (dashboardView s)\<lparr>content := c'\<rparr>,
          sent := sent s @ qs, console := console s @ lg\<rparr>"
      by simp
    from kept ts have k: "\<And>t'. c' = QuizMounted t' \<Longrightarrow>
        quizDifficulty t' \<in> {''Easy'', ''Medium'', ''Hard''}" by simp
    from new ts have n: "\<And>q d. q \<in> set qs \<Longrightarrow> difficulty_of q = Some d \<Longrightarrow>
        d \<in> {JStr ''Easy'', JStr ''Medium'', JStr ''Hard''}" by simp
    from inv have old: "\<And>q d. q \<in> set (sent s) \<Longrightarrow> difficulty_of q = Some d \<Longrightarrow>
        d \<in> {JStr ''Easy'', JStr ''Medium'', JStr ''Hard''}"
      by (simp add: difficulty_ok_def)
    show ?thesis
      unfolding after difficulty_ok_def
    proof (intro conjI allI impI ballI)
      fix t'
      assume "content (dashboardView (s\<lparr>dashboardView := (dashboardView s)\<lparr>content := c'\<rparr>,
          sent := sent s @ qs, console := console s @ lg\<rparr>)) = QuizMounted t'"
      then have "c' = QuizMounted t'" by simp
      then show "quizDifficulty t' \<in> {''Easy'', ''Medium'', ''Hard''}" by (rule k)
    next
      fix q d
      assume "q \<in> set (sent (s\<lparr>dashboardView := (dashboardView s)\<lparr>content := c'\<rparr>,
          sent := sent s @ qs, console := console s @ lg\<rparr>))"
        and d: "difficulty_of q = Some d"
      then have "q \<in> set (sent s) \<or> q \<in> set qs" by simp
      then show "d \<in> {JStr ''Easy'', JStr ''Medium'', JStr ''Hard''}"
        using old [OF _ d] n [OF _ d] by blast
    qed
  qed
qed (auto simp: difficulty_ok_def)

lemma reachable_difficulty_ok: "reachable s \<Longrightarrow> difficulty_ok s"
proof (induction rule: reachable.induct)
  case start
  show ?case
    by (simp add: difficulty_ok_def app_init_def dashboard_init_def mount_def)
next
  case (after s e)
  then show ?case by (simp add: difficulty_ok_step)
qed

text \<open>
  Claim C6. The difficulty of the quiz tab starts as \<open>Medium\<close>, and a change of the
  \<open>select\<close> element sets it to the value of one of the three options. So in every state
  the page can reach the difficulty of a mounted quiz tab is \<open>Easy\<close>, \<open>Medium\<close> or
  \<open>Hard\<close>, and so is the \<open>difficulty\<close> member of every request that has been sent and
  has one.
\<close>

theorem difficulty_one_of_three:
  "quizDifficulty quiz_init = ''Medium''
   \<and> quizDifficulty (difficulty_onChange t opt) \<in> {''Easy'', ''Medium'', ''Hard''}
   \<and> difficulty_of (fst (snd (handleGenerateQuiz t r))) = Some (JStr (quizDifficulty t))
   \<and> (reachable s \<longrightarrow>
        (\<forall>t'. content (dashboardView s) = QuizMounted t' \<longrightarrow>
            quizDifficulty t' \<in> {''Easy'', ''Medium'', ''Hard''})
        \<and> (\<forall>q \<in> set (sent s). \<forall>d. difficulty_of q = Some d \<longrightarrow>
            d \<in> {JStr ''Easy'', JStr ''Medium'', JStr ''Hard''}))"
proof -
  have "difficulty_ok s" if "reachable s"
    using that by (rule reachable_difficulty_ok)
  then show ?thesis
    using option_value_one_of_three [of opt]
    by (simp add: difficulty_ok_def quiz_init_def difficulty_onChange_def setQuizDifficulty_def
        handleGenerateQuiz_request quiz_request_difficulty)
qed

theorem difficulty_one_of_three_witness:
  "reachable (run sample_page sample_session)
   \<and> map difficulty_of (sent (run sample_page sample_session)) = [None, Some (JStr ''Hard'')]
   \<and> quizDifficulty (difficulty_onChange quiz_init OptHard) = ''Hard''"
proof -
  have r: "reachable (run sample_page sample_session)"
    using reachable_sample_page by (rule reachable_run)
  have d: "map difficulty_of (sent (run sample_page sample_session))
      = [None, Some (JStr ''Hard'')]"
    by (simp add: page_eval sample_session_def quiz_init_def difficulty_onChange_def
        setQuizDifficulty_def quiz_click_def handleGenerateQuiz_def handleGenerateQuiz_begin_def
        handleGenerateQuiz_resolve_def other_request_difficulty quiz_request_difficulty)
  show ?thesis
    using difficulty_one_of_three [of quiz_init OptHard NetworkFailure
        "run sample_page sample_session"] r d
    by (simp add: difficulty_onChange_def setQuizDifficulty_def)
qed

section \<open>From the upload view to the dashboard\<close>

lemma tab_step_no_upload: "uploads (fst (snd (tab_step c e))) = []"
proof -
  have "url q \<noteq> ''http://localhost:5000/upload''"
    if "q \<in> set (fst (snd (tab_step c e)))" for q
    using tab_step_sent [OF that] by (auto simp: tab_request_urls)
  then show ?thesis
    by (simp add: uploads_def filter_empty_conv)
qed

lemma dashboard_step:
  "appState s = Dashboard \<Longrightarrow>
     appState (step s e) = Dashboard \<and> uploads (sent (step s e)) = uploads (sent s)"
proof (cases e)
  case (InTab te)
  assume "appState s = Dashboard"
  with InTab show ?thesis
    using tab_step_no_upload [of "content (dashboardView s)" te]
    by (auto simp: uploads_def split: prod.splits)
next
  case (UploadSettles r)
  assume "appState s = Dashboard"
  with UploadSettles show ?thesis
    by (auto split: prod.splits)
next
  case TimeoutFires
  assume "appState s = Dashboard"
  with TimeoutFires show ?thesis
    by (auto simp: handleUploadSuccess_def split: list.splits timeout.splits)
qed auto

lemma dashboard_run:
  "appState s = Dashboard \<Longrightarrow>
     appState (run s es) = Dashboard \<and> uploads (sent (run s es)) = uploads (sent s)"
proof (induction es arbitrary: s)
  case Nil
  then show ?case by (simp add: run_Nil)
next
  case (Cons e es)
  from Cons.prems have one: "appState (step s e) = Dashboard"
    "uploads (sent (step s e)) = uploads (sent s)"
    using dashboard_step by simp_all
  from Cons.IH [OF one(1)] one(2) show ?case
    by (simp add: run_Cons)
qed

lemma appState_changes:
  "appState (step s e) \<noteq> appState s \<Longrightarrow>
     appState s = Upload \<and> appState (step s e) = Dashboard \<and> e = TimeoutFires \<and> timeouts s \<noteq> []"
  by (cases e; cases "appState s")
     (auto simp: handleUploadSuccess_def split: if_splits prod.splits list.splits timeout.splits
        option.splits)

lemma timeouts_grow:
  "length (timeouts s) < length (timeouts (step s e)) \<Longrightarrow>
     0 < awaited s
     \<and> ((\<exists>d. e = UploadSettles (Response True (Some d))) \<or> e = UploadSettles (NullBody True))"
proof (cases e)
  case (UploadSettles r)
  assume "length (timeouts s) < length (timeouts (step s e))"
  with UploadSettles show ?thesis
    using handleUpload_resolve_timeouts [of "uploadView s" r]
    by (cases r rule: is_failure.cases) (auto split: if_splits prod.splits)
next
  case TimeoutFires
  assume "length (timeouts s) < length (timeouts (step s e))"
  with TimeoutFires show ?thesis
    by (auto simp: handleUploadSuccess_def split: list.splits timeout.splits)
qed (auto split: if_splits prod.splits option.splits)

text \<open>
  Claim C10, as the components have it. Once the page shows the dashboard, no sequence of
  events brings the upload view back, and none sends an upload request. The state of the
  page changes only from the upload view to the dashboard, when a timeout fires, and a
  timeout is set only when the reply to an upload that was awaited is a success (a reply
  with the \<open>ok\<close> flag whose body parses). Until that timeout fires the upload view stays
  in use.
\<close>

theorem dashboard_never_left:
  "(appState s = Dashboard \<longrightarrow>
      appState (run s es) = Dashboard \<and> uploads (sent (run s es)) = uploads (sent s))
   \<and> (appState (step s e) \<noteq> appState s \<longrightarrow>
        appState s = Upload \<and> appState (step s e) = Dashboard \<and> e = TimeoutFires
        \<and> timeouts s \<noteq> [])
   \<and> (length (timeouts s) < length (timeouts (step s e)) \<longrightarrow>
        0 < awaited s
        \<and> ((\<exists>d. e = UploadSettles (Response True (Some d)))
             \<or> e = UploadSettles (NullBody True)))"
  using dashboard_run [of s es] appState_changes [of s e] timeouts_grow [of s e]
  by blast

theorem dashboard_never_left_witness:
  "appState (run sample_page (upload_succeeds @ [TimeoutFires])) = Dashboard
   \<and> appState (run (run sample_page (upload_succeeds @ [TimeoutFires]))
        [ClickUpload, PickFiles (Some [second_pdf]), ClickTab TabExplain, TimeoutFires])
      = Dashboard
   \<and> appState (run sample_page upload_succeeds) = Upload
   \<and> appState (step (run sample_page upload_succeeds) TimeoutFires)
      \<noteq> appState (run sample_page upload_succeeds)
   \<and> timeouts (run sample_page upload_succeeds) \<noteq> []
   \<and> length (timeouts (run sample_page [ClickUpload]))
      < length (timeouts (step (run sample_page [ClickUpload])
          (UploadSettles (Response True (Some sample_reply)))))
   \<and> 0 < awaited (run sample_page [ClickUpload])"
proof -
  have a: "appState (run sample_page (upload_succeeds @ [TimeoutFires])) = Dashboard"
    by (simp add: page_eval)
  have b: "appState (step (run sample_page upload_succeeds) TimeoutFires)
      \<noteq> appState (run sample_page upload_succeeds)"
    by (simp add: page_eval)
  have c: "length (timeouts (run sample_page [ClickUpload]))
      < length (timeouts (step (run sample_page [ClickUpload])
          (UploadSettles (Response True (Some sample_reply)))))"
    by (simp add: page_eval)
  show ?thesis
    using dashboard_never_left [of "run sample_page (upload_succeeds @ [TimeoutFires])"
        "[ClickUpload, PickFiles (Some [second_pdf]), ClickTab TabExplain, TimeoutFires]"
        TimeoutFires]
      dashboard_never_left [of "run sample_page upload_succeeds" "[]" TimeoutFires]
      dashboard_never_left [of "run sample_page [ClickUpload]" "[]"
        "UploadSettles (Response True (Some sample_reply))"]
      a b c
    by simp
qed

text \<open>
  The claim as it is written fails in its last part. After the first upload has
  succeeded the upload view is still shown, with its button enabled, until the timeout
  fires; a second document picked and uploaded in that time is sent to the server in the
  same page session.
\<close>

theorem second_upload_counterexample:
  "status_render (uploadView (run sample_page upload_succeeds))
     = SuccessStatus ''PDF uploaded and processed successfully!''
   \<and> appState (run sample_page upload_succeeds) = Upload
   \<and> \<not> upload_disabled (uploadView (run sample_page upload_succeeds))
   \<and> map files_of (uploads (sent (run sample_page (upload_succeeds @ second_upload))))
     = [[sample_pdf], [second_pdf]]
   \<and> sample_pdf \<noteq> second_pdf
   \<and> appState (run sample_page (upload_succeeds @ second_upload @ [TimeoutFires])) = Dashboard"
  by (simp add: page_eval status_render_def uploads_def upload_request_def files_of_def)

end
